theory Spec2Isabelle
  imports Complex_Main "HOL-Library.Word" "HOL-Library.Char_ord" "HOL-Library.List_Lexorder"
begin

section \<open>Number model\<close>

text \<open>
  The benchmark driver \<^verbatim>\<open>main.cpp\<close> works on \<^verbatim>\<open>double\<close>, \<^verbatim>\<open>float\<close> and
  \<^verbatim>\<open>std::complex<double>\<close> buffers. In this development a \<^verbatim>\<open>double\<close> and a
  \<^verbatim>\<open>float\<close> are a \<^typ>\<open>real\<close> and a \<^verbatim>\<open>cdouble\<close> is a \<^typ>\<open>complex\<close>. The arithmetic
  of the domain mapper is given twice: exactly (\<open>transform_domain\<close>), and with every
  operation rounded to the precision of the element type (\<open>transform_domain_ieee\<close>, on
  the rounding function \<open>ieee_round\<close> below). Infinities and NaN are not represented,
  except where a division by zero of the source is written out as a value of its own.
  Buffer lengths are \<^typ>\<open>nat\<close> (an Eigen vector that exists has fewer than \<open>2 ^ 63\<close>
  entries); the evaluation counter \<^verbatim>\<open>n_evals\<close>, a \<^verbatim>\<open>size_t\<close> product, is a 64-bit word
  and wraps.
\<close>

section \<open>Domain mapper\<close>

text \<open>
  \<^verbatim>\<open>template <typename VAL_T>
  Eigen::VectorX<VAL_T> transform_domain(const Eigen::VectorX<VAL_T> &vals, double lower, double upper) {
      VAL_T delta = upper - lower;
      return vals.array() * delta + lower;
  }\<close>
  The two \<^verbatim>\<open>double\<close> bounds are converted to the element type (\<^const>\<open>of_real\<close>); the
  Eigen array expression is coefficient-wise. This definition is the mapper in exact
  arithmetic: what the source computes when none of its operations rounds, as with the
  default domain \<open>(0, 1)\<close> on numbers of the element type. It stands for the mapper
  inside \<^verbatim>\<open>test_func\<close> below, where the sizes, the counts, the times and the default
  domain are at stake; the values the mapper returns with another domain are those of
  \<open>transform_domain_ieee\<close>.
\<close>

definition transform_domain :: "'a::real_algebra_1 list \<Rightarrow> real \<Rightarrow> real \<Rightarrow> 'a list" where
  "transform_domain vals lower upper =
     (let delta = of_real (upper - lower)
      in map (\<lambda>v. v * delta + of_real lower) vals)"

subsection \<open>Rounding\<close>

text \<open>
  An IEEE 754 binary format: the number \<open>p\<close> of significant bits and the least and the
  greatest exponent of a normal number. Its finite numbers are the \<open>n * 2 ^ (e - p + 1)\<close>
  with \<open>\<bar>n\<bar> < 2 ^ p\<close> and \<open>e\<close> between the two exponents. \<^verbatim>\<open>double\<close> is binary64 and
  \<^verbatim>\<open>float\<close> is binary32.
\<close>

record format =
  sig_bits :: nat
  min_exp :: int
  max_exp :: int

definition binary64 :: format where
  "binary64 = \<lparr>sig_bits = 53, min_exp = - 1022, max_exp = 1023\<rparr>"

definition binary32 :: format where
  "binary32 = \<lparr>sig_bits = 24, min_exp = - 126, max_exp = 127\<rparr>"

text \<open>
  Every arithmetic operation and every conversion returns the exact result rounded to
  the nearest number of the format, a tie going to the one with the even significand
  (the default rounding mode). \<open>round_half_even\<close> rounds a real to the nearest integer,
  a tie to the even one.
\<close>

definition round_half_even :: "real \<Rightarrow> int" where
  "round_half_even y =
     (let f = \<lfloor>y\<rfloor>; d = y - of_int f
      in if d < 1 / 2 then f
         else if 1 / 2 < d then f + 1
         else if even f then f else f + 1)"

text \<open>
  The rounding of a positive \<open>x\<close> with \<open>2 ^ k \<le> x < 2 ^ (k + 1)\<close>: the significand
  \<open>x / 2 ^ (k - p + 1)\<close> lies in \<open>[2 ^ (p - 1), 2 ^ p)\<close> and is rounded to an integer.
  Below the least exponent the scale stays that of the least exponent (gradual
  underflow).
\<close>

definition round_magnitude :: "format \<Rightarrow> real \<Rightarrow> real" where
  "round_magnitude fmt x =
     (let e = max \<lfloor>log 2 x\<rfloor> (min_exp fmt) - int (sig_bits fmt) + 1
      in of_int (round_half_even (x / 2 powr of_int e)) * 2 powr of_int e)"

text \<open>Rounding to nearest, ties to even, is symmetric in the sign.\<close>

definition ieee_round :: "format \<Rightarrow> real \<Rightarrow> real" where
  "ieee_round fmt x = (if x = 0 then 0 else sgn x * round_magnitude fmt \<bar>x\<bar>)"

text \<open>
  A rounded result is a finite number of the format when its exponent does not exceed
  the greatest one. Otherwise the operation overflows and the hardware returns an
  infinity, which is not represented here.
\<close>

definition in_range :: "format \<Rightarrow> real \<Rightarrow> bool" where
  "in_range fmt r \<longleftrightarrow> \<bar>r\<bar> < 2 powr of_int (max_exp fmt + 1)"

text \<open>
  The mapper on a buffer of element type \<^verbatim>\<open>VAL_T\<close>, the format \<open>fmt\<close>.
  \<^verbatim>\<open>upper - lower\<close> is a \<^verbatim>\<open>double\<close> subtraction, and its result is converted to \<^verbatim>\<open>VAL_T\<close>
  to initialise \<^verbatim>\<open>delta\<close>. In \<^verbatim>\<open>vals.array() * delta + lower\<close> the scalar \<^verbatim>\<open>lower\<close> is
  converted to \<^verbatim>\<open>VAL_T\<close>; the product and the sum of a coefficient are operations of
  \<^verbatim>\<open>VAL_T\<close>. Whether the compiler contracts them into one fused multiply-add, rounded
  once, is the flag \<open>fused\<close>. The result is \<open>None\<close> when an operation overflows.
\<close>

definition transform_domain_ieee ::
  "format \<Rightarrow> bool \<Rightarrow> real list \<Rightarrow> real \<Rightarrow> real \<Rightarrow> real list option" where
  "transform_domain_ieee fmt fused vals lower upper =
     (let difference = ieee_round binary64 (upper - lower);
          delta = ieee_round fmt difference;
          lower' = ieee_round fmt lower;
          product = (\<lambda>v. ieee_round fmt (v * delta));
          coeff = (\<lambda>v. if fused then ieee_round fmt (v * delta + lower')
                        else ieee_round fmt (product v + lower'))
      in if in_range binary64 difference \<and> in_range fmt delta \<and> in_range fmt lower'
            \<and> list_all (\<lambda>v. (fused \<or> in_range fmt (product v)) \<and> in_range fmt (coeff v)) vals
         then Some (map coeff vals)
         else None)"

section \<open>Timing\<close>

text \<open>
  \<^verbatim>\<open>get_wtime\<close> reads \<^verbatim>\<open>CLOCK_MONOTONIC\<close>; the two readings of a benchmark are inputs
  of the model. \<^verbatim>\<open>get_wtime_diff\<close> is
  \<^verbatim>\<open>(tf->tv_sec - ts->tv_sec) + (tf->tv_nsec - ts->tv_nsec) * 1E-9\<close>.
\<close>

record timespec =
  tv_sec :: int
  tv_nsec :: int

definition get_wtime_diff :: "timespec \<Rightarrow> timespec \<Rightarrow> real" where
  "get_wtime_diff ts tf =
     real_of_int (tv_sec tf - tv_sec ts) + real_of_int (tv_nsec tf - tv_nsec ts) * (1 / 1000000000)"

section \<open>Parameters and results\<close>

text \<open>
  \<^verbatim>\<open>class Params { public: std::pair<double, double> domain{0.0, 1.0}; };\<close>
\<close>

record Params =
  domain :: "real \<times> real"

definition Params_default :: Params where
  "Params_default = \<lparr>domain = (0, 1)\<rparr>"

text \<open>
  \<^verbatim>\<open>params[name]\<close> on a \<^verbatim>\<open>std::unordered_map<std::string, Params>\<close>: the stored value,
  or a default-constructed \<^verbatim>\<open>Params\<close> for a missing key (\<^verbatim>\<open>test_func\<close> takes the table
  by value, so the insertion is local to the call).
\<close>

definition params_at :: "(string \<rightharpoonup> Params) \<Rightarrow> string \<Rightarrow> Params" where
  "params_at params name = (case params name of None \<Rightarrow> Params_default | Some par \<Rightarrow> par)"

text \<open>
  A \<^verbatim>\<open>double\<close> quotient whose divisor may be zero: IEEE division gives an infinity or
  NaN there, written out as values of their own.
\<close>

datatype fpval = Finite real | PlusInf | MinusInf | NaN

definition fdiv :: "real \<Rightarrow> real \<Rightarrow> fpval" where
  "fdiv x y =
     (if y \<noteq> 0 then Finite (x / y)
      else if 0 < x then PlusInf else if x < 0 then MinusInf else NaN)"

text \<open>Division of such a quotient by a positive constant.\<close>

definition fscale :: "fpval \<Rightarrow> real \<Rightarrow> fpval" where
  "fscale v c = (case v of Finite q \<Rightarrow> Finite (q / c) | PlusInf \<Rightarrow> PlusInf
                 | MinusInf \<Rightarrow> MinusInf | NaN \<Rightarrow> NaN)"

text \<open>
  \<^verbatim>\<open>template <typename VAL_T> class BenchResult\<close>: the output vector \<^verbatim>\<open>res\<close>,
  \<^verbatim>\<open>eval_time = 0.0\<close>, \<^verbatim>\<open>label\<close>, \<^verbatim>\<open>n_evals\<close> and \<^verbatim>\<open>params\<close>.
\<close>

record 'a BenchResult =
  res :: "'a list"
  eval_time :: real
  label :: string
  n_evals :: "64 word"
  params :: Params

text \<open>
  What a run reads from the machine: the clock before and after the timed loop, and the
  contents of memory the program never initialised (the one-argument constructor leaves
  \<^verbatim>\<open>n_evals\<close> unset, \<^verbatim>\<open>res(size)\<close> allocates \<open>size\<close> coefficients without writing them).
\<close>

record 'a machine =
  clock_start :: timespec
  clock_stop :: timespec
  stale_count :: "64 word"
  stale_coeff :: "nat \<Rightarrow> 'a"

text \<open>\<^verbatim>\<open>BenchResult(const std::string &label_) : label(label_){}\<close>\<close>

definition BenchResult_label :: "'a machine \<Rightarrow> string \<Rightarrow> 'a BenchResult" where
  "BenchResult_label M label' =
     \<lparr>res = [], eval_time = 0, label = label', n_evals = stale_count M, params = Params_default\<rparr>"

text \<open>
  \<^verbatim>\<open>BenchResult(const std::string &label_, std::size_t size, std::size_t n_evals_, Params params_)
      : res(size), label(label_), n_evals(n_evals_), params(params_){}\<close>
\<close>

definition BenchResult_sized ::
  "'a machine \<Rightarrow> string \<Rightarrow> nat \<Rightarrow> 64 word \<Rightarrow> Params \<Rightarrow> 'a BenchResult" where
  "BenchResult_sized M label' size' n_evals' params' =
     \<lparr>res = map (stale_coeff M) [0..<size'], eval_time = 0, label = label',
      n_evals = n_evals', params = params'\<rparr>"

text \<open>\<^verbatim>\<open>double Mevals() const { return n_evals / eval_time / 1E6; }\<close>\<close>

definition Mevals :: "'a BenchResult \<Rightarrow> fpval" where
  "Mevals br = fscale (fdiv (real (unat (n_evals br))) (eval_time br)) 1000000"

section \<open>Evaluation adapters\<close>

text \<open>
  A \<^verbatim>\<open>multi_eval_func<Real>\<close> is a \<^verbatim>\<open>std::function<void(const Real *, Real *, size_t)>\<close>.
  The two pointers are the input buffer and the output buffer, as lists; an access
  outside a buffer is the fault \<open>OutOfBounds\<close> (undefined behaviour in the source). An
  evaluation returns the output buffer together with the indices it read and wrote, in
  order; \<open>None\<close> is an evaluation that never returns.
\<close>

datatype access_error = OutOfBounds

record 'a mem =
  out :: "'a list"
  reads :: "nat list"
  writes :: "nat list"

definition fresh :: "'a list \<Rightarrow> 'a mem" where
  "fresh buf = \<lparr>out = buf, reads = [], writes = []\<rparr>"

type_synonym 'a multi_eval_func = "'a list \<Rightarrow> 'a list \<Rightarrow> nat \<Rightarrow> (access_error + 'a mem) option"

text \<open>
  \<^verbatim>\<open>scalar_func_apply\<close>:
  \<^verbatim>\<open>for (size_t i = 0; i < N; i++) res[i] = f(vals[i]);\<close>
\<close>

function scalar_loop ::
  "('a \<Rightarrow> 'a) \<Rightarrow> 'a list \<Rightarrow> nat \<Rightarrow> nat \<Rightarrow> 'a mem \<Rightarrow> access_error + 'a mem" where
  "scalar_loop f vals N i m =
     (if i < N then
        (if i < length vals \<and> i < length (out m)
         then scalar_loop f vals N (Suc i)
                (m\<lparr>out := (out m)[i := f (vals ! i)], reads := reads m @ [i], writes := writes m @ [i]\<rparr>)
         else Inl OutOfBounds)
      else Inr m)"
  by pat_completeness auto
termination
  by (relation "measure (\<lambda>(f, vals, N, i, m). N - i)") auto

declare scalar_loop.simps [simp del]

definition scalar_func_apply :: "('a \<Rightarrow> 'a) \<Rightarrow> 'a multi_eval_func" where
  "scalar_func_apply f = (\<lambda>vals resbuf N. Some (scalar_loop f vals N 0 (fresh resbuf)))"

text \<open>
  A SIMD register of \<open>W\<close> lanes is a list of \<open>W\<close> coefficients. \<^verbatim>\<open>x.load_a(vals + i)\<close> and
  \<^verbatim>\<open>Vec::LoadAligned(vals + i)\<close> read the \<open>W\<close> coefficients from index \<open>i\<close>;
  \<^verbatim>\<open>y.store_a(res + i)\<close> and \<^verbatim>\<open>StoreAligned(res + i)\<close> write the lanes of \<open>y\<close> from index \<open>i\<close>.
\<close>

definition load_a :: "'a list \<Rightarrow> nat \<Rightarrow> nat \<Rightarrow> access_error + 'a list" where
  "load_a vals i W = (if i + W \<le> length vals then Inr (take W (drop i vals)) else Inl OutOfBounds)"

definition store_a :: "'a list \<Rightarrow> nat \<Rightarrow> 'a list \<Rightarrow> access_error + 'a list" where
  "store_a resbuf i y =
     (if i + length y \<le> length resbuf
      then Inr (take i resbuf @ y @ drop (i + length y) resbuf) else Inl OutOfBounds)"

text \<open>
  The loop shared by \<^verbatim>\<open>vec_func_apply\<close> and \<^verbatim>\<open>sctl_apply\<close>:
  \<^verbatim>\<open>for (size_t i = 0; i < N; i += W) { x.load_a(vals + i); y = f(x); y.store_a(res + i); }\<close>
  With a step of \<open>0\<close> the loop would not end, so it is a partial function.
\<close>

partial_function (option) lane_loop ::
  "nat \<Rightarrow> ('a list \<Rightarrow> 'a list) \<Rightarrow> 'a list \<Rightarrow> nat \<Rightarrow> nat \<Rightarrow> 'a mem \<Rightarrow> (access_error + 'a mem) option" where
  "lane_loop W f vals N i m =
     (if i < N then
        (case load_a vals i W of
           Inl e \<Rightarrow> Some (Inl e)
         | Inr x \<Rightarrow>
             (case store_a (out m) i (f x) of
                Inl e \<Rightarrow> Some (Inl e)
              | Inr buf \<Rightarrow>
                  lane_loop W f vals N (i + W)
                    (m\<lparr>out := buf, reads := reads m @ [i..<i + W],
                       writes := writes m @ [i..<i + length (f x)]\<rparr>)))
      else Some (Inr m))"

text \<open>
  \<^verbatim>\<open>vec_func_apply<VEC_T, Real>(f)\<close> steps by \<^verbatim>\<open>VEC_T::size()\<close>,
  \<^verbatim>\<open>sctl_apply<Real, VecLen>(f)\<close> by \<^verbatim>\<open>VecLen\<close>.
\<close>

definition vec_func_apply :: "nat \<Rightarrow> ('a list \<Rightarrow> 'a list) \<Rightarrow> 'a multi_eval_func" where
  "vec_func_apply VEC_T_size f = (\<lambda>vals resbuf N. lane_loop VEC_T_size f vals N 0 (fresh resbuf))"

definition sctl_apply :: "nat \<Rightarrow> ('a list \<Rightarrow> 'a list) \<Rightarrow> 'a multi_eval_func" where
  "sctl_apply VecLen f = (\<lambda>vals resbuf N. lane_loop VecLen f vals N 0 (fresh resbuf))"

section \<open>The benchmark of one function in one backend\<close>

text \<open>
  The template parameter \<^verbatim>\<open>FUN_T\<close> of \<^verbatim>\<open>test_func\<close>, told apart by \<^verbatim>\<open>if constexpr\<close>:
  \<^verbatim>\<open>fun_cdx1_x2\<close> (one argument, a pair of results), a
  \<^verbatim>\<open>std::shared_ptr<baobzi::Baobzi>\<close> (called as \<^verbatim>\<open>(*f)(vals.data(), resptr, vals.size())\<close>;
  the approximant's evaluation is the library's), and everything else, called as
  \<^verbatim>\<open>f(vals.data(), resptr, vals.size())\<close>.
\<close>

datatype 'a FUN_T =
    Fun_cdx1_x2 "'a \<Rightarrow> 'a \<times> 'a"
  | Baobzi_ptr "'a multi_eval_func"
  | Multi_eval "'a multi_eval_func"

text \<open>
  \<^verbatim>\<open>for (std::size_t i = 0; i < vals.size(); ++i)
      std::tie(resptr[i * 2], resptr[i * 2 + 1]) = f(vals[i]);\<close>
\<close>

function pair_loop :: "('a \<Rightarrow> 'a \<times> 'a) \<Rightarrow> 'a list \<Rightarrow> nat \<Rightarrow> 'a mem \<Rightarrow> access_error + 'a mem" where
  "pair_loop f vals i m =
     (if i < length vals then
        (if i * 2 + 1 < length (out m)
         then pair_loop f vals (Suc i)
                (m\<lparr>out := (out m)[i * 2 := fst (f (vals ! i)), i * 2 + 1 := snd (f (vals ! i))],
                   reads := reads m @ [i], writes := writes m @ [i * 2, i * 2 + 1]\<rparr>)
         else Inl OutOfBounds)
      else Inr m)"
  by pat_completeness auto
termination
  by (relation "measure (\<lambda>(f, vals, i, m). length vals - i)") auto

declare pair_loop.simps [simp del]

text \<open>One pass of the body of the timed loop over the output buffer \<^verbatim>\<open>resptr\<close>.\<close>

definition eval_once :: "'a FUN_T \<Rightarrow> 'a list \<Rightarrow> 'a list \<Rightarrow> (access_error + 'a list) option" where
  "eval_once f vals resptr =
     (case f of
        Fun_cdx1_x2 g \<Rightarrow> Some (map_sum id out (pair_loop g vals 0 (fresh resptr)))
      | Baobzi_ptr b \<Rightarrow> map_option (map_sum id out) (b vals resptr (length vals))
      | Multi_eval h \<Rightarrow> map_option (map_sum id out) (h vals resptr (length vals)))"

text \<open>
  \<^verbatim>\<open>for (long k = 0; k < Nrepeat; k++) { ... }\<close>, by the number of passes left. A fault or
  a pass that does not return ends the run.
\<close>

fun repeat_loop ::
  "nat \<Rightarrow> 'a FUN_T \<Rightarrow> 'a list \<Rightarrow> 'a list \<Rightarrow> (access_error + 'a list) option" where
  "repeat_loop 0 f vals resptr = Some (Inr resptr)"
| "repeat_loop (Suc k) f vals resptr =
     (case eval_once f vals resptr of
        None \<Rightarrow> None
      | Some (Inl e) \<Rightarrow> Some (Inl e)
      | Some (Inr buf) \<Rightarrow> repeat_loop k f vals buf)"

text \<open>
  The inputs a benchmark evaluates:
  \<^verbatim>\<open>const Params &par = params[name];
  Eigen::VectorX<VAL_T> vals = transform_domain(vals_in, par.domain.first, par.domain.second);\<close>
\<close>

definition mapped_inputs ::
  "(string \<rightharpoonup> Params) \<Rightarrow> string \<Rightarrow> 'a::real_algebra_1 list \<Rightarrow> 'a list" where
  "mapped_inputs params' name vals_in =
     (let par = params_at params' name
      in transform_domain vals_in (fst (domain par)) (snd (domain par)))"

text \<open>
  \<^verbatim>\<open>test_func(name, library_prefix, funs, params, vals_in, Nrepeat)\<close>, the generic overload.
  \<^verbatim>\<open>n_evals = vals.size() * Nrepeat\<close> is a \<^verbatim>\<open>size_t\<close> product.
\<close>

definition test_func ::
  "'a::real_algebra_1 machine \<Rightarrow> string \<Rightarrow> string \<Rightarrow> (string \<rightharpoonup> 'a FUN_T) \<Rightarrow>
     (string \<rightharpoonup> Params) \<Rightarrow> 'a list \<Rightarrow> nat \<Rightarrow> (access_error + 'a BenchResult) option" where
  "test_func M name library_prefix funs params' vals_in Nrepeat =
     (let label' = library_prefix @ ''_'' @ name in
      case funs name of
        None \<Rightarrow> Some (Inr (BenchResult_label M label'))
      | Some f \<Rightarrow>
          (let par = params_at params' name;
               vals = mapped_inputs params' name vals_in;
               res_size = length vals;
               n_evals' = (word_of_nat (length vals) * word_of_nat Nrepeat :: 64 word);
               res_size = (case f of Fun_cdx1_x2 g \<Rightarrow> res_size * 2 | _ \<Rightarrow> res_size);
               br = BenchResult_sized M label' res_size n_evals' par
           in case repeat_loop Nrepeat f vals (res br) of
                None \<Rightarrow> None
              | Some (Inl e) \<Rightarrow> Some (Inl e)
              | Some (Inr buf) \<Rightarrow>
                  Some (Inr (br\<lparr>res := buf,
                                eval_time := get_wtime_diff (clock_start M) (clock_stop M)\<rparr>))))"


text \<open>
  The overload for the Eigen backend. Its registry maps a name to an enumerator of
  \<^verbatim>\<open>OPS\<close>; the \<^verbatim>\<open>switch\<close> has a case for each of the 24 enumerators, and each case assigns
  a coefficient-wise function of the mapped inputs to the result vector, as
  \<^verbatim>\<open>res_eigen = x.array().cos();\<close> does. The coefficient function of an enumerator is
  Eigen's, the parameter \<open>coeff\<close>.
\<close>

datatype OPS =
    COS | SIN | TAN | COSH | SINH | TANH | EXP | LOG | LOG10 | POW35 | POW13
  | ASIN | ACOS | ATAN | ASINH | ACOSH | ATANH | ERF | ERFC | LGAMMA | DIGAMMA
  | NDTRI | SQRT | RSQRT

fun ops_loop :: "nat \<Rightarrow> (OPS \<Rightarrow> 'a \<Rightarrow> 'a) \<Rightarrow> OPS \<Rightarrow> 'a list \<Rightarrow> 'a list \<Rightarrow> 'a list" where
  "ops_loop 0 coeff OP x res_eigen = res_eigen"
| "ops_loop (Suc k) coeff OP x res_eigen = ops_loop k coeff OP x (map (coeff OP) x)"

definition test_func_ops ::
  "(OPS \<Rightarrow> 'a \<Rightarrow> 'a) \<Rightarrow> 'a::real_algebra_1 machine \<Rightarrow> string \<Rightarrow> string \<Rightarrow> (string \<rightharpoonup> OPS) \<Rightarrow>
     (string \<rightharpoonup> Params) \<Rightarrow> 'a list \<Rightarrow> nat \<Rightarrow> 'a BenchResult" where
  "test_func_ops coeff M name library_prefix funs params' vals_in Nrepeat =
     (let label' = library_prefix @ ''_'' @ name in
      case funs name of
        None \<Rightarrow> BenchResult_label M label'
      | Some OP \<Rightarrow>
          (let par = params_at params' name;
               x = mapped_inputs params' name vals_in;
               br = BenchResult_sized M label' (length x)
                      (word_of_nat (length x) * word_of_nat Nrepeat) par
           in br\<lparr>res := ops_loop Nrepeat coeff OP x (res br),
                 eval_time := get_wtime_diff (clock_start M) (clock_stop M)\<rparr>))"

section \<open>Reporter\<close>

text \<open>
  An output stream: the characters written so far, the precision and the adjustment
  flag (the field width is reset by every insertion, so it is local to \<open>put_field\<close>).
  How a \<^verbatim>\<open>double\<close> and a \<^verbatim>\<open>VAL_T\<close> print at a precision is the stream library's: the
  parameters \<open>show_double\<close> and \<open>show_val\<close>.
\<close>

record ostream =
  written :: string
  precision :: nat
  adjust_left :: bool

definition put :: "string \<Rightarrow> ostream \<Rightarrow> ostream" where
  "put s os = os\<lparr>written := written os @ s\<rparr>"

text \<open>\<^verbatim>\<open>os << left << setw(w) << s\<close>\<close>

definition put_field :: "nat \<Rightarrow> string \<Rightarrow> ostream \<Rightarrow> ostream" where
  "put_field w s os =
     (let os = os\<lparr>adjust_left := True\<rparr>
      in put (s @ replicate (w - length s) CHR '' '') os)"

text \<open>
  \<^verbatim>\<open>VAL_T mean = 0.0; for (const auto &v : br.res) mean += v; mean /= br.res.size();\<close>
  For an empty vector this is \<open>0 / 0\<close>, the value \<open>None\<close>.
\<close>

definition mean_of :: "'a::field list \<Rightarrow> 'a option" where
  "mean_of xs = (if length xs = 0 then None else Some (foldl (+) 0 xs / of_nat (length xs)))"

text \<open>\<^verbatim>\<open>std::ostream &operator<<(std::ostream &os, const BenchResult<VAL_T> &br)\<close>\<close>

definition operator_shl ::
  "(nat \<Rightarrow> fpval \<Rightarrow> string) \<Rightarrow> (nat \<Rightarrow> 'a option \<Rightarrow> string) \<Rightarrow> ostream \<Rightarrow>
     'a::field BenchResult \<Rightarrow> ostream" where
  "operator_shl show_double show_val os br =
     (let mean = mean_of (res br) in
      if length (res br) \<noteq> 0 then
        (let os = os\<lparr>precision := 6\<rparr>;
             os = put_field 25 (label br @ '': '') os;
             os = put_field 15 (show_double (precision os) (Mevals br)) os;
             os = os\<lparr>precision := 15\<rparr>;
             os = put_field 15 (show_val (precision os) mean) os;
             os = put_field 5 '' '' os;
             os = os\<lparr>precision := 5\<rparr>;
             os = put ''['' os;
             os = put (show_double (precision os) (Finite (fst (domain (params br))))) os;
             os = put '', '' os;
             os = put (show_double (precision os) (Finite (snd (domain (params br))))) os;
             os = put '']'' os;
             os = put [CHR 0x0A] os
         in os)
      else os)"

section \<open>The driver\<close>

subsection \<open>The domain table\<close>


subsection \<open>The registries\<close>

text \<open>
  Each backend registry of \<^verbatim>\<open>main\<close> is a \<^verbatim>\<open>std::unordered_map\<close> from a function name to
  an adapter around a library routine. The dispatcher reads only the keys: a registry
  is the list of the keys of its initialiser, in the order written there (the
  initialisers of \<^verbatim>\<open>std_funs_fx1\<close> and \<^verbatim>\<open>std_funs_dx1\<close> name \<^verbatim>\<open>asin\<close>, \<^verbatim>\<open>acos\<close> and
  \<^verbatim>\<open>atan\<close> twice; the map keeps one entry for each).
\<close>

definition fort_funs :: "string list" where
  "fort_funs =
    [''bessel_Y0'', ''bessel_J0'']"

definition hank10x_funs :: "string list" where
  "hank10x_funs =
    [''hank103'']"

definition gsl_funs :: "string list" where
  "gsl_funs =
    [''sin_pi'', ''cos_pi'', ''sin'', ''cos'', ''sinc'', ''sinc_pi'', ''erf'', ''erfc'',
     ''tgamma'', ''lgamma'', ''log'', ''exp'', ''pow13'', ''bessel_Y0'', ''bessel_Y1'',
     ''bessel_Y2'', ''bessel_I0'', ''bessel_I1'', ''bessel_I2'', ''bessel_J0'', ''bessel_J1'',
     ''bessel_J2'', ''bessel_K0'', ''bessel_K1'', ''bessel_K2'', ''bessel_j0'', ''bessel_j1'',
     ''bessel_j2'', ''bessel_y0'', ''bessel_y1'', ''bessel_y2'', ''hermite_0'', ''hermite_1'',
     ''hermite_2'', ''hermite_3'', ''riemann_zeta'']"

definition gsl_complex_funs :: "string list" where
  "gsl_complex_funs =
    [''sin'', ''cos'', ''log'', ''dilog'', ''lgamma'']"

definition boost_funs_fx1 :: "string list" where
  "boost_funs_fx1 =
    [''sin_pi'', ''cos_pi'', ''tgamma'', ''lgamma'', ''digamma'', ''pow13'', ''erf'',
     ''erfc'', ''sinc_pi'', ''bessel_Y0'', ''bessel_Y1'', ''bessel_Y2'', ''bessel_I0'',
     ''bessel_I1'', ''bessel_I2'', ''bessel_J0'', ''bessel_J1'', ''bessel_J2'', ''bessel_K0'',
     ''bessel_K1'', ''bessel_K2'', ''bessel_j0'', ''bessel_j1'', ''bessel_j2'', ''bessel_y0'',
     ''bessel_y1'', ''bessel_y2'', ''hermite_0'', ''hermite_1'', ''hermite_2'', ''hermite_3'',
     ''riemann_zeta'']"

definition boost_funs_dx1 :: "string list" where
  "boost_funs_dx1 =
    [''sin_pi'', ''cos_pi'', ''tgamma'', ''lgamma'', ''digamma'', ''pow13'', ''erf'',
     ''erfc'', ''sinc_pi'', ''bessel_Y0'', ''bessel_Y1'', ''bessel_Y2'', ''bessel_I0'',
     ''bessel_I1'', ''bessel_I2'', ''bessel_J0'', ''bessel_J1'', ''bessel_J2'', ''bessel_K0'',
     ''bessel_K1'', ''bessel_K2'', ''bessel_j0'', ''bessel_j1'', ''bessel_j2'', ''bessel_y0'',
     ''bessel_y1'', ''bessel_y2'', ''hermite_0'', ''hermite_1'', ''hermite_2'', ''hermite_3'',
     ''riemann_zeta'']"

definition std_funs_fx1 :: "string list" where
  "std_funs_fx1 =
    [''tgamma'', ''lgamma'', ''sin'', ''cos'', ''tan'', ''asin'', ''acos'', ''atan'',
     ''asin'', ''acos'', ''atan'', ''sinh'', ''cosh'', ''tanh'', ''asinh'', ''acosh'',
     ''atanh'', ''sin_pi'', ''cos_pi'', ''erf'', ''erfc'', ''log'', ''log2'', ''log10'',
     ''exp'', ''exp2'', ''exp10'', ''sqrt'', ''rsqrt'', ''pow3.5'', ''pow13'']"

definition std_funs_dx1 :: "string list" where
  "std_funs_dx1 =
    [''tgamma'', ''lgamma'', ''sin'', ''cos'', ''tan'', ''asin'', ''acos'', ''atan'',
     ''asin'', ''acos'', ''atan'', ''sinh'', ''cosh'', ''tanh'', ''asinh'', ''acosh'',
     ''atanh'', ''sin_pi'', ''cos_pi'', ''erf'', ''erfc'', ''log'', ''log2'', ''log10'',
     ''exp'', ''exp2'', ''exp10'', ''sqrt'', ''rsqrt'', ''pow3.5'', ''pow13'']"

definition amdlibm_funs_fx1 :: "string list" where
  "amdlibm_funs_fx1 =
    [''sin'', ''cos'', ''tan'', ''sinh'', ''cosh'', ''tanh'', ''asin'', ''acos'', ''atan'',
     ''asinh'', ''acosh'', ''atanh'', ''log'', ''log2'', ''log10'', ''exp'', ''exp2'',
     ''exp10'', ''sqrt'', ''pow3.5'', ''pow13'']"

definition amdlibm_funs_dx1 :: "string list" where
  "amdlibm_funs_dx1 =
    [''sin'', ''cos'', ''tan'', ''sinh'', ''cosh'', ''tanh'', ''asin'', ''acos'', ''atan'',
     ''asinh'', ''acosh'', ''atanh'', ''log'', ''log2'', ''log10'', ''exp'', ''exp2'',
     ''exp10'', ''sqrt'', ''pow3.5'', ''pow13'']"

definition amdlibm_funs_dx4 :: "string list" where
  "amdlibm_funs_dx4 =
    [''sin'', ''cos'', ''tan'', ''log'', ''log2'', ''exp'', ''exp2'', ''pow3.5'', ''pow13'']"

definition amdlibm_funs_fx8 :: "string list" where
  "amdlibm_funs_fx8 =
    [''sin'', ''cos'', ''tan'', ''log'', ''log2'', ''exp'', ''exp2'', ''pow3.5'', ''pow13'']"

definition sleef_funs_fx1 :: "string list" where
  "sleef_funs_fx1 =
    [''sin_pi'', ''cos_pi'', ''sin'', ''cos'', ''tan'', ''sinh'', ''cosh'', ''tanh'',
     ''asin'', ''acos'', ''atan'', ''asinh'', ''acosh'', ''atanh'', ''log'', ''log2'',
     ''log10'', ''exp'', ''exp2'', ''exp10'', ''erf'', ''erfc'', ''lgamma'', ''tgamma'',
     ''sqrt'', ''pow3.5'', ''pow13'']"

definition sleef_funs_dx1 :: "string list" where
  "sleef_funs_dx1 =
    [''sin_pi'', ''cos_pi'', ''sin'', ''cos'', ''tan'', ''sinh'', ''cosh'', ''tanh'',
     ''asin'', ''acos'', ''atan'', ''asinh'', ''acosh'', ''atanh'', ''log'', ''log2'',
     ''log10'', ''exp'', ''exp2'', ''exp10'', ''erf'', ''erfc'', ''lgamma'', ''tgamma'',
     ''sqrt'', ''pow3.5'', ''pow13'']"

definition sleef_funs_fx8 :: "string list" where
  "sleef_funs_fx8 =
    [''sin_pi'', ''cos_pi'', ''sin'', ''cos'', ''tan'', ''sinh'', ''cosh'', ''tanh'',
     ''asin'', ''acos'', ''atan'', ''asinh'', ''acosh'', ''atanh'', ''log'', ''log2'',
     ''log10'', ''exp'', ''exp2'', ''exp10'', ''erf'', ''erfc'', ''lgamma'', ''tlgamma'',
     ''sqrt'', ''pow3.5'', ''pow13'']"

definition sleef_funs_dx4 :: "string list" where
  "sleef_funs_dx4 =
    [''sin_pi'', ''cos_pi'', ''sin'', ''cos'', ''tan'', ''sinh'', ''cosh'', ''tanh'',
     ''asin'', ''acos'', ''atan'', ''asinh'', ''acosh'', ''atanh'', ''log'', ''log2'',
     ''log10'', ''exp'', ''exp2'', ''exp10'', ''erf'', ''erfc'', ''lgamma'', ''tlgamma'',
     ''sqrt'', ''pow3.5'', ''pow13'']"

definition sleef_funs_fx16 :: "string list" where
  "sleef_funs_fx16 =
    [''sin_pi'', ''cos_pi'', ''sin'', ''cos'', ''tan'', ''sinh'', ''cosh'', ''tanh'',
     ''asin'', ''acos'', ''atan'', ''asinh'', ''acosh'', ''atanh'', ''log'', ''log2'',
     ''log10'', ''exp'', ''exp2'', ''exp10'', ''erf'', ''erfc'', ''lgamma'', ''tlgamma'',
     ''sqrt'', ''pow3.5'', ''pow13'']"

definition sleef_funs_dx8 :: "string list" where
  "sleef_funs_dx8 =
    [''sin_pi'', ''cos_pi'', ''sin'', ''cos'', ''tan'', ''sinh'', ''cosh'', ''tanh'',
     ''asin'', ''acos'', ''atan'', ''asinh'', ''acosh'', ''atanh'', ''log'', ''log2'',
     ''log10'', ''exp'', ''exp2'', ''exp10'', ''erf'', ''erfc'', ''lgamma'', ''tlgamma'',
     ''sqrt'', ''pow3.5'', ''pow13'']"

definition af_funs_fx8 :: "string list" where
  "af_funs_fx8 =
    [''sqrt'', ''sin'', ''cos'', ''tan'', ''sinh'', ''cosh'', ''tanh'', ''asinh'', ''acosh'',
     ''atanh'', ''asin'', ''acos'', ''atan'', ''exp'', ''exp2'', ''exp10'', ''log'', ''log2'',
     ''log10'', ''pow3.5'', ''pow13'']"

definition af_funs_dx4 :: "string list" where
  "af_funs_dx4 =
    [''sqrt'', ''sin'', ''cos'', ''tan'', ''sinh'', ''cosh'', ''tanh'', ''asinh'', ''acosh'',
     ''atanh'', ''asin'', ''acos'', ''atan'', ''exp'', ''exp2'', ''exp10'', ''log'', ''log2'',
     ''log10'', ''pow3.5'', ''pow13'']"

definition af_funs_fx16 :: "string list" where
  "af_funs_fx16 =
    [''sqrt'', ''sin'', ''cos'', ''tan'', ''sinh'', ''cosh'', ''tanh'', ''asinh'', ''acosh'',
     ''atanh'', ''asin'', ''acos'', ''atan'', ''exp'', ''exp2'', ''exp10'', ''log'', ''log2'',
     ''log10'', ''pow3.5'', ''pow13'']"

definition af_funs_dx8 :: "string list" where
  "af_funs_dx8 =
    [''sqrt'', ''sin'', ''cos'', ''tan'', ''sinh'', ''cosh'', ''tanh'', ''asinh'', ''acosh'',
     ''atanh'', ''asin'', ''acos'', ''atan'', ''exp'', ''exp2'', ''exp10'', ''log'', ''log2'',
     ''log10'', ''pow3.5'', ''pow13'']"

definition sctl_funs_fx8 :: "string list" where
  "sctl_funs_fx8 =
    [''copy'', ''exp'', ''sin'', ''cos'', ''rsqrt'']"

definition sctl_funs_dx4 :: "string list" where
  "sctl_funs_dx4 =
    [''copy'', ''exp'', ''sin'', ''cos'', ''rsqrt'']"

definition sctl_funs_fx16 :: "string list" where
  "sctl_funs_fx16 =
    [''copy'', ''exp'', ''sin'', ''cos'', ''rsqrt'']"

definition sctl_funs_dx8 :: "string list" where
  "sctl_funs_dx8 =
    [''copy'', ''exp'', ''sin'', ''cos'', ''rsqrt'']"

definition eigen_funs :: "string list" where
  "eigen_funs =
    [''sin'', ''cos'', ''tan'', ''sinh'', ''cosh'', ''tanh'', ''exp'', ''log'', ''log10'',
     ''pow3.5'', ''pow13'', ''asin'', ''acos'', ''atan'', ''asinh'', ''atanh'', ''acosh'',
     ''erf'', ''erfc'', ''lgamma'', ''digamma'', ''ndtri'', ''sqrt'', ''rsqrt'']"

text \<open>
  The registry of the Eigen backend maps each of its keys to an enumerator of \<^verbatim>\<open>OPS\<close>.
\<close>

definition eigen_ops :: "string \<rightharpoonup> OPS" where
  "eigen_ops = map_of
     [(''sin'', SIN), (''cos'', COS), (''tan'', TAN), (''sinh'', SINH), (''cosh'', COSH),
      (''tanh'', TANH), (''exp'', EXP), (''log'', LOG), (''log10'', LOG10), (''pow3.5'', POW35),
      (''pow13'', POW13), (''asin'', ASIN), (''acos'', ACOS), (''atan'', ATAN),
      (''asinh'', ASINH), (''atanh'', ATANH), (''acosh'', ACOSH), (''erf'', ERF),
      (''erfc'', ERFC), (''lgamma'', LGAMMA), (''digamma'', DIGAMMA), (''ndtri'', NDTRI),
      (''sqrt'', SQRT), (''rsqrt'', RSQRT)]"

definition potential_baobzi_funs :: "string list" where
  "potential_baobzi_funs =
    [''bessel_Y0'', ''bessel_Y1'', ''bessel_Y2'', ''bessel_I0'', ''bessel_I1'', ''bessel_I2'',
     ''bessel_J0'', ''bessel_J1'', ''bessel_J2'', ''hermite_0'', ''hermite_1'', ''hermite_2'',
     ''hermite_3'']"

subsection \<open>The requested functions\<close>

text \<open>
  A \<^verbatim>\<open>std::set<std::string>\<close> is the list of its elements in ascending order, which is
  the order its iterators give. \<^verbatim>\<open>insert\<close> keeps the order and adds no element twice;
  the comparison of \<^verbatim>\<open>std::string\<close> is lexicographic on the characters.
\<close>

fun set_insert :: "'a::linorder \<Rightarrow> 'a list \<Rightarrow> 'a list" where
  "set_insert x [] = [x]"
| "set_insert x (y # ys) =
     (if x < y then x # y # ys else if y < x then y # set_insert x ys else y # ys)"

text \<open>
  \<^verbatim>\<open>std::set_intersection\<close> on two ascending ranges: the range it writes, one element
  after the other.
\<close>

fun set_intersection :: "'a::linorder list \<Rightarrow> 'a list \<Rightarrow> 'a list" where
  "set_intersection [] ys = []"
| "set_intersection (x # xs) [] = []"
| "set_intersection (x # xs) (y # ys) =
     (if x < y then set_intersection xs (y # ys)
      else if y < x then set_intersection (x # xs) ys
      else x # set_intersection xs ys)"

text \<open>
  \<^verbatim>\<open>for (int i = 0; i < argc; ++i) res.insert(argv[i]);\<close> where \<^verbatim>\<open>main\<close> passes the
  arguments after the program name.
\<close>

definition parse_args :: "string list \<Rightarrow> string list" where
  "parse_args argv = foldl (\<lambda>res' a. set_insert a res') [] argv"

text \<open>\<^verbatim>\<open>for (auto kv : registry) fun_union.insert(kv.first);\<close>\<close>

definition insert_keys :: "string list \<Rightarrow> string list \<Rightarrow> string list" where
  "insert_keys fun_union registry = foldl (\<lambda>s k. set_insert k s) fun_union registry"

text \<open>
  The union loops of \<^verbatim>\<open>main\<close>, in their order; the last four are compiled under
  \<^verbatim>\<open>__AVX512F__\<close> only, the flag \<open>avx512f\<close>.
\<close>

definition fun_union :: "bool \<Rightarrow> string list" where
  "fun_union avx512f =
     foldl insert_keys []
       ([amdlibm_funs_fx1, amdlibm_funs_dx1, boost_funs_fx1, boost_funs_dx1, eigen_funs,
         fort_funs, gsl_funs, gsl_complex_funs, hank10x_funs, sleef_funs_fx1, sleef_funs_dx1,
         std_funs_fx1, std_funs_dx1,
         af_funs_dx4, amdlibm_funs_dx4, amdlibm_funs_fx8, sctl_funs_dx4, sleef_funs_dx4,
         sleef_funs_fx8]
        @ (if avx512f then [af_funs_dx8, sctl_funs_dx8, sleef_funs_dx8, sleef_funs_fx16] else []))"

text \<open>
  \<^verbatim>\<open>if (input_keys.size() > 0)
      std::set_intersection(fun_union.begin(), fun_union.end(), input_keys.begin(), input_keys.end(),
                            std::inserter(keys_to_eval, keys_to_eval.end()));
  else keys_to_eval = fun_union;\<close>
\<close>

definition keys_to_eval :: "bool \<Rightarrow> string list \<Rightarrow> string list" where
  "keys_to_eval avx512f argv =
     (let input_keys = parse_args argv in
      if length input_keys > 0
      then foldl (\<lambda>s k. set_insert k s) [] (set_intersection (fun_union avx512f) input_keys)
      else fun_union avx512f)"

text \<open>
  An approximant is built for every requested key of \<^verbatim>\<open>potential_baobzi_funs\<close>; these
  keys are the registry \<^verbatim>\<open>baobzi_funs\<close>.
\<close>

definition baobzi_funs :: "string list \<Rightarrow> string list" where
  "baobzi_funs keys = filter (\<lambda>key. key \<in> set potential_baobzi_funs) keys"

subsection \<open>The samples and the probes\<close>

text \<open>
  Eigen's \<^verbatim>\<open>Random(n)\<close> fills a vector with pseudo-random coefficients in \<open>[-1, 1]\<close>,
  drawn one after the other from the generator of the C library; a complex coefficient
  takes two draws. The generator is the sequence \<open>rand\<close> of the values it returns in a
  process and the number \<open>pos\<close> of values taken so far.
  \<^verbatim>\<open>Eigen::VectorXd vals = 0.5 * (Eigen::ArrayXd::Random(n_eval) + 1.0);
  Eigen::VectorXf fvals = vals.cast<float>();
  Eigen::VectorX<cdouble> cvals = 0.5 * (Eigen::ArrayX<cdouble>::Random(n_eval) + std::complex<double>{1.0, 1.0});\<close>
  The conversion to \<^verbatim>\<open>float\<close> is the parameter \<open>to_float\<close> (the rounding
  \<open>ieee_round binary32\<close>). The three vectors are the
  fields \<open>sample_vals\<close>, \<open>sample_fvals\<close> and \<open>sample_cvals\<close>.
\<close>

record samples =
  sample_vals :: "real list"
  sample_fvals :: "real list"
  sample_cvals :: "complex list"


text \<open>
  The calls of \<^verbatim>\<open>test_func\<close> in the body of the loop over the requested keys, in their
  order: the label prefix, the registry and which of the three sample vectors is passed.
\<close>

datatype sample_kind = Float_sample | Double_sample | Complex_sample

definition probes :: "bool \<Rightarrow> string list \<Rightarrow> (string \<times> string list \<times> sample_kind) list" where
  "probes avx512f keys =
     [(''boost_fx1'', boost_funs_fx1, Float_sample),
      (''std_fx1'', std_funs_fx1, Float_sample),
      (''amdlibm_fx1'', amdlibm_funs_fx1, Float_sample),
      (''amdlibm_fx8'', amdlibm_funs_fx8, Float_sample),
      (''sleef_fx1'', sleef_funs_fx1, Float_sample),
      (''sleef_fx8'', sleef_funs_fx8, Float_sample),
      (''af_fx8'', af_funs_fx8, Float_sample),
      (''sctl_fx8'', sctl_funs_fx8, Float_sample),
      (''eigen_fxx'', eigen_funs, Float_sample)]
     @ (if avx512f
        then [(''agnerfog_fx16'', af_funs_fx16, Float_sample),
              (''sctl_fx16'', sctl_funs_fx16, Float_sample),
              (''sleef_fx16'', sleef_funs_fx16, Float_sample)]
        else [])
     @ [(''std_dx1'', std_funs_dx1, Double_sample),
        (''fort_dx1'', fort_funs, Double_sample),
        (''amdlibm_dx1'', amdlibm_funs_dx1, Double_sample),
        (''boost_dx1'', boost_funs_dx1, Double_sample),
        (''gsl_dx1'', gsl_funs, Double_sample),
        (''gsl_cdx1'', gsl_complex_funs, Complex_sample),
        (''sleef_dx1'', sleef_funs_dx1, Double_sample),
        (''hank10x_dx1'', hank10x_funs, Complex_sample),
        (''baobzi_dx1'', baobzi_funs keys, Double_sample),
        (''eigen_dxx'', eigen_funs, Double_sample),
        (''amdlibm_dx4'', amdlibm_funs_dx4, Double_sample),
        (''agnerfog_dx4'', af_funs_dx4, Double_sample),
        (''sctl_dx4'', sctl_funs_dx4, Double_sample),
        (''sleef_dx4'', sleef_funs_dx4, Double_sample)]
     @ (if avx512f
        then [(''agnerfog_dx8'', af_funs_dx8, Double_sample),
              (''sctl_dx8'', sctl_funs_dx8, Double_sample),
              (''sleef_dx8'', sleef_funs_dx8, Double_sample)]
        else [])"



subsection \<open>The benchmark loop\<close>

text \<open>
  The adapters in the registries wrap routines of the benchmarked libraries. These are
  parameters of the model: the routine behind each key of a registry of
  \<^verbatim>\<open>multi_eval_func<float>\<close> or \<^verbatim>\<open>multi_eval_func<double>\<close> (by the name of the registry
  variable), of the registry of \<^verbatim>\<open>multi_eval_func<cdouble>\<close>, the Fortran routine
  \<^verbatim>\<open>hank103_\<close> behind the only \<^verbatim>\<open>fun_cdx1_x2\<close>, the approximants built by
  \<^verbatim>\<open>create_baobzi_func\<close>, and the coefficient functions of Eigen (by the label of the
  call, since \<^verbatim>\<open>float\<close> and \<^verbatim>\<open>double\<close> select different kernels).
\<close>

record libraries =
  real_routines :: "string \<Rightarrow> string \<Rightarrow> real multi_eval_func"
  complex_routines :: "string \<Rightarrow> complex multi_eval_func"
  hank103_routine :: "complex \<Rightarrow> complex \<times> complex"
  baobzi_routines :: "string \<Rightarrow> real multi_eval_func"
  eigen_routines :: "string \<Rightarrow> OPS \<Rightarrow> real \<Rightarrow> real"

text \<open>A registry as a map: the keys of its initialiser, each with its entry.\<close>

definition registry_of :: "string list \<Rightarrow> (string \<Rightarrow> 'f) \<Rightarrow> string \<rightharpoonup> 'f" where
  "registry_of keys entry = (\<lambda>name. if name \<in> set keys then Some (entry name) else None)"

definition multi_registry :: "libraries \<Rightarrow> string \<Rightarrow> string list \<Rightarrow> string \<rightharpoonup> real FUN_T" where
  "multi_registry L var keys = registry_of keys (\<lambda>name. Multi_eval (real_routines L var name))"

text \<open>
  A call \<^verbatim>\<open>test_func(key, library_prefix, funs, params, vals_in, n_repeat)\<close> of the loop
  body, by the arguments that differ from one call to the next: the label prefix, the
  registry and the sample vector. The registry type selects the overload and, with the
  vector, the element type.
\<close>

datatype bench_call =
    Call_real string "string \<rightharpoonup> real FUN_T" "real list"
  | Call_complex string "string \<rightharpoonup> complex FUN_T" "complex list"
  | Call_ops string "string \<rightharpoonup> OPS" "real list"

text \<open>
  The body of \<^verbatim>\<open>for (auto key : keys_to_eval)\<close>: its calls of \<^verbatim>\<open>test_func\<close>, in their
  order, with the samples \<^verbatim>\<open>fvals\<close>, \<^verbatim>\<open>vals\<close> and \<^verbatim>\<open>cvals\<close> of the configuration.
\<close>

definition bench_calls :: "bool \<Rightarrow> libraries \<Rightarrow> string list \<Rightarrow> samples \<Rightarrow> bench_call list" where
  "bench_calls avx512f L keys S =
     [Call_real ''boost_fx1'' (multi_registry L ''boost_funs_fx1'' boost_funs_fx1) (sample_fvals S),
      Call_real ''std_fx1'' (multi_registry L ''std_funs_fx1'' std_funs_fx1) (sample_fvals S),
      Call_real ''amdlibm_fx1'' (multi_registry L ''amdlibm_funs_fx1'' amdlibm_funs_fx1) (sample_fvals S),
      Call_real ''amdlibm_fx8'' (multi_registry L ''amdlibm_funs_fx8'' amdlibm_funs_fx8) (sample_fvals S),
      Call_real ''sleef_fx1'' (multi_registry L ''sleef_funs_fx1'' sleef_funs_fx1) (sample_fvals S),
      Call_real ''sleef_fx8'' (multi_registry L ''sleef_funs_fx8'' sleef_funs_fx8) (sample_fvals S),
      Call_real ''af_fx8'' (multi_registry L ''af_funs_fx8'' af_funs_fx8) (sample_fvals S),
      Call_real ''sctl_fx8'' (multi_registry L ''sctl_funs_fx8'' sctl_funs_fx8) (sample_fvals S),
      Call_ops ''eigen_fxx'' eigen_ops (sample_fvals S)]
     @ (if avx512f
        then [Call_real ''agnerfog_fx16'' (multi_registry L ''af_funs_fx16'' af_funs_fx16) (sample_fvals S),
              Call_real ''sctl_fx16'' (multi_registry L ''sctl_funs_fx16'' sctl_funs_fx16) (sample_fvals S),
              Call_real ''sleef_fx16'' (multi_registry L ''sleef_funs_fx16'' sleef_funs_fx16) (sample_fvals S)]
        else [])
     @ [Call_real ''std_dx1'' (multi_registry L ''std_funs_dx1'' std_funs_dx1) (sample_vals S),
        Call_real ''fort_dx1'' (multi_registry L ''fort_funs'' fort_funs) (sample_vals S),
        Call_real ''amdlibm_dx1'' (multi_registry L ''amdlibm_funs_dx1'' amdlibm_funs_dx1) (sample_vals S),
        Call_real ''boost_dx1'' (multi_registry L ''boost_funs_dx1'' boost_funs_dx1) (sample_vals S),
        Call_real ''gsl_dx1'' (multi_registry L ''gsl_funs'' gsl_funs) (sample_vals S),
        Call_complex ''gsl_cdx1''
          (registry_of gsl_complex_funs (\<lambda>name. Multi_eval (complex_routines L name))) (sample_cvals S),
        Call_real ''sleef_dx1'' (multi_registry L ''sleef_funs_dx1'' sleef_funs_dx1) (sample_vals S),
        Call_complex ''hank10x_dx1''
          (registry_of hank10x_funs (\<lambda>name. Fun_cdx1_x2 (hank103_routine L))) (sample_cvals S),
        Call_real ''baobzi_dx1''
          (registry_of (baobzi_funs keys) (\<lambda>name. Baobzi_ptr (baobzi_routines L name))) (sample_vals S),
        Call_ops ''eigen_dxx'' eigen_ops (sample_vals S),
        Call_real ''amdlibm_dx4'' (multi_registry L ''amdlibm_funs_dx4'' amdlibm_funs_dx4) (sample_vals S),
        Call_real ''agnerfog_dx4'' (multi_registry L ''af_funs_dx4'' af_funs_dx4) (sample_vals S),
        Call_real ''sctl_dx4'' (multi_registry L ''sctl_funs_dx4'' sctl_funs_dx4) (sample_vals S),
        Call_real ''sleef_dx4'' (multi_registry L ''sleef_funs_dx4'' sleef_funs_dx4) (sample_vals S)]
     @ (if avx512f
        then [Call_real ''agnerfog_dx8'' (multi_registry L ''af_funs_dx8'' af_funs_dx8) (sample_vals S),
              Call_real ''sctl_dx8'' (multi_registry L ''sctl_funs_dx8'' sctl_funs_dx8) (sample_vals S),
              Call_real ''sleef_dx8'' (multi_registry L ''sleef_funs_dx8'' sleef_funs_dx8) (sample_vals S)]
        else [])"






section \<open>Deterministic adapters\<close>

text \<open>
  A registry entry is an arbitrary \<^verbatim>\<open>std::function\<close>. The statements about repeated
  evaluation are about adapters that write through the output pointer and compute from
  their inputs alone: \<open>keeps_size\<close> says that an evaluation leaves the output buffer at
  its size (it is written in place), \<open>pure_on\<close> that on the inputs \<open>vals\<close> the buffer a
  full evaluation leaves does not depend on what the buffer held before.
\<close>

definition keeps_size :: "'a multi_eval_func \<Rightarrow> bool" where
  "keeps_size h =
     (\<forall>vals resbuf N m. h vals resbuf N = Some (Inr m) \<longrightarrow> length (out m) = length resbuf)"

definition pure_on :: "'a multi_eval_func \<Rightarrow> 'a list \<Rightarrow> bool" where
  "pure_on h vals =
     (\<forall>b1 b2. length b1 = length vals \<longrightarrow> length b2 = length vals \<longrightarrow>
        map_option (map_sum id out) (h vals b1 (length vals)) =
        map_option (map_sum id out) (h vals b2 (length vals)))"

section \<open>Properties of the domain mapper\<close>

lemma transform_domain_length: "length (transform_domain vals lower upper) = length vals"
  by (simp add: transform_domain_def)

lemma transform_domain_nth:
  "i < length vals \<Longrightarrow>
     transform_domain vals lower upper ! i = vals ! i * of_real (upper - lower) + of_real lower"
  by (simp add: transform_domain_def)

text \<open>
  In exact arithmetic the mapper is the affine map \<open>v * (hi - lo) + lo\<close>, strictly
  increasing for \<open>lo < hi\<close>, and takes \<open>[0, 1]\<close> into \<open>[lo, hi]\<close>.
\<close>

lemma transform_domain_exact:
  fixes vals :: "real list"
  assumes dom: "lo < hi"
    and unit: "\<forall>v \<in> set vals. 0 \<le> v \<and> v \<le> 1"
  shows "transform_domain vals lo hi = map (\<lambda>v. v * (hi - lo) + lo) vals
       \<and> length (transform_domain vals lo hi) = length vals
       \<and> (\<forall>i < length vals. \<forall>j < length vals.
            (vals ! i \<le> vals ! j \<longrightarrow>
               transform_domain vals lo hi ! i \<le> transform_domain vals lo hi ! j)
          \<and> (vals ! i < vals ! j \<longrightarrow>
               transform_domain vals lo hi ! i < transform_domain vals lo hi ! j))
       \<and> (\<forall>y \<in> set (transform_domain vals lo hi). lo \<le> y \<and> y \<le> hi)"
proof -
  have pos: "0 < hi - lo" using dom by simp
  have eq: "transform_domain vals lo hi = map (\<lambda>v. v * (hi - lo) + lo) vals"
    by (simp add: transform_domain_def)
  have ord: "\<forall>i < length vals. \<forall>j < length vals.
            (vals ! i \<le> vals ! j \<longrightarrow>
               transform_domain vals lo hi ! i \<le> transform_domain vals lo hi ! j)
          \<and> (vals ! i < vals ! j \<longrightarrow>
               transform_domain vals lo hi ! i < transform_domain vals lo hi ! j)"
    using pos by (simp add: transform_domain_nth)
  have rng: "\<forall>y \<in> set (transform_domain vals lo hi). lo \<le> y \<and> y \<le> hi"
  proof
    fix y assume "y \<in> set (transform_domain vals lo hi)"
    then obtain v where v: "v \<in> set vals" and y: "y = v * (hi - lo) + lo"
      by (auto simp: eq)
    from v unit have v01: "0 \<le> v" "v \<le> 1" by auto
    have "0 \<le> v * (hi - lo)" using v01 pos by simp
    moreover have "v * (hi - lo) \<le> 1 * (hi - lo)"
      using v01 pos by (intro mult_right_mono) simp_all
    ultimately show "lo \<le> y \<and> y \<le> hi" using y by simp
  qed
  show ?thesis using eq ord rng by (simp add: transform_domain_length)
qed


subsection \<open>Rounding to nearest\<close>

lemma round_half_even_of_int: "round_half_even (of_int n) = n"
  by (simp add: round_half_even_def)

lemma round_half_even_bounds:
  "\<lfloor>y\<rfloor> \<le> round_half_even y" "round_half_even y \<le> \<lfloor>y\<rfloor> + 1"
  by (simp_all add: round_half_even_def Let_def)

lemma round_half_even_mono:
  assumes "a \<le> b"
  shows "round_half_even a \<le> round_half_even b"
proof (cases "\<lfloor>a\<rfloor> = \<lfloor>b\<rfloor>")
  case True
  then show ?thesis
    using assms by (simp add: round_half_even_def Let_def)
next
  case False
  with assms have "\<lfloor>a\<rfloor> < \<lfloor>b\<rfloor>"
    using floor_mono [OF assms] by linarith
  then have "round_half_even a \<le> \<lfloor>b\<rfloor>"
    using round_half_even_bounds(2) [of a] by linarith
  then show ?thesis
    using round_half_even_bounds(1) [of b] by linarith
qed

lemma round_half_even_ge:
  "of_int n \<le> y \<Longrightarrow> n \<le> round_half_even y"
  using round_half_even_mono [of "of_int n" y] by (simp add: round_half_even_of_int)

lemma round_half_even_le:
  "y \<le> of_int n \<Longrightarrow> round_half_even y \<le> n"
  using round_half_even_mono [of y "of_int n"] by (simp add: round_half_even_of_int)

lemma floor_log2_bounds:
  assumes "0 < x"
  shows "2 powr of_int \<lfloor>log 2 x\<rfloor> \<le> x" "x < 2 powr of_int (\<lfloor>log 2 x\<rfloor> + 1)"
proof -
  have "of_int \<lfloor>log 2 x\<rfloor> \<le> log 2 x"
    by simp
  then show "2 powr of_int \<lfloor>log 2 x\<rfloor> \<le> x"
    using le_log_iff [of 2 x "of_int \<lfloor>log 2 x\<rfloor>"] assms by simp
  have "log 2 x < of_int (\<lfloor>log 2 x\<rfloor> + 1)"
    by linarith
  then show "x < 2 powr of_int (\<lfloor>log 2 x\<rfloor> + 1)"
    using log_less_iff [of 2 x "of_int (\<lfloor>log 2 x\<rfloor> + 1)"] assms by simp
qed

lemma floor_log2_eq:
  assumes "2 powr of_int k \<le> x" "x < 2 powr of_int (k + 1)"
  shows "\<lfloor>log 2 x\<rfloor> = k"
proof -
  have pos: "0 < x"
    using assms(1) by (rule less_le_trans [rotated]) simp
  have "of_int k \<le> log 2 x"
    using le_log_iff [of 2 x "of_int k"] assms(1) pos by simp
  moreover have "log 2 x < of_int (k + 1)"
    using log_less_iff [of 2 x "of_int (k + 1)"] assms(2) pos by simp
  ultimately show ?thesis
    by (intro floor_unique) simp_all
qed

lemma two_powr_int: "0 \<le> k \<Longrightarrow> (2::real) powr of_int k = of_int (2 ^ nat k)"
  by (simp add: powr_real_of_int)

text \<open>The scale \<open>2 ^ e\<close> of a positive number and the two ends of its binade.\<close>

lemma scale_of_binade:
  assumes p: "0 < p"
  shows "(2::real) powr of_int K = of_int (2 ^ (p - 1)) * 2 powr of_int (K - int p + 1)"
    and "(2::real) powr of_int (K + 1) = of_int (2 ^ p) * 2 powr of_int (K - int p + 1)"
proof -
  have "of_int K = of_int (int p - 1) + (of_int (K - int p + 1) :: real)"
    by simp
  then have "(2::real) powr of_int K = 2 powr of_int (int p - 1) * 2 powr of_int (K - int p + 1)"
    by (simp only: powr_add)
  also have "2 powr of_int (int p - 1) = (of_int (2 ^ nat (int p - 1)) :: real)"
    using p by (intro two_powr_int) simp
  also have "nat (int p - 1) = p - 1"
    by simp
  finally show "(2::real) powr of_int K = of_int (2 ^ (p - 1)) * 2 powr of_int (K - int p + 1)" .
  have "of_int (K + 1) = of_int (int p) + (of_int (K - int p + 1) :: real)"
    by simp
  then have "(2::real) powr of_int (K + 1) = 2 powr of_int (int p) * 2 powr of_int (K - int p + 1)"
    by (simp only: powr_add)
  also have "2 powr of_int (int p) = (of_int (2 ^ nat (int p)) :: real)"
    by (intro two_powr_int) simp
  also have "nat (int p) = p"
    by simp
  finally show "(2::real) powr of_int (K + 1) = of_int (2 ^ p) * 2 powr of_int (K - int p + 1)" .
qed

lemma round_magnitude_upper:
  assumes x: "0 < x" and p: "0 < sig_bits fmt"
  shows "round_magnitude fmt x \<le> 2 powr of_int (max \<lfloor>log 2 x\<rfloor> (min_exp fmt) + 1)"
proof -
  define K where "K = max \<lfloor>log 2 x\<rfloor> (min_exp fmt)"
  define s :: real where "s = 2 powr of_int (K - int (sig_bits fmt) + 1)"
  have s: "0 < s"
    by (simp add: s_def)
  have r: "round_magnitude fmt x = of_int (round_half_even (x / s)) * s"
    by (simp add: round_magnitude_def K_def s_def Let_def)
  have hi: "2 powr of_int (K + 1) = of_int (2 ^ sig_bits fmt) * s"
    unfolding s_def using p by (rule scale_of_binade(2))
  have "(2::real) powr of_int (\<lfloor>log 2 x\<rfloor> + 1) \<le> 2 powr of_int (K + 1)"
    by (intro powr_mono) (simp_all add: K_def)
  then have "x \<le> of_int (2 ^ sig_bits fmt) * s"
    using floor_log2_bounds(2) [OF x] hi by linarith
  then have "x / s \<le> of_int (2 ^ sig_bits fmt)"
    using s by (simp add: pos_divide_le_eq)
  then have "round_half_even (x / s) \<le> 2 ^ sig_bits fmt"
    by (rule round_half_even_le)
  then have "(of_int (round_half_even (x / s)) :: real) \<le> of_int (2 ^ sig_bits fmt)"
    by (simp only: of_int_le_iff)
  then have "of_int (round_half_even (x / s)) * s \<le> of_int (2 ^ sig_bits fmt) * s"
    using s by (simp only: mult_le_cancel_right_pos)
  then show ?thesis
    using hi r by (simp add: K_def)
qed

lemma round_magnitude_lower:
  assumes x: "0 < x" and p: "0 < sig_bits fmt" and k: "min_exp fmt \<le> \<lfloor>log 2 x\<rfloor>"
  shows "2 powr of_int \<lfloor>log 2 x\<rfloor> \<le> round_magnitude fmt x"
proof -
  define K where "K = \<lfloor>log 2 x\<rfloor>"
  define s :: real where "s = 2 powr of_int (K - int (sig_bits fmt) + 1)"
  have s: "0 < s"
    by (simp add: s_def)
  have m: "max \<lfloor>log 2 x\<rfloor> (min_exp fmt) = K"
    using k by (simp add: K_def)
  have r: "round_magnitude fmt x = of_int (round_half_even (x / s)) * s"
    by (simp add: round_magnitude_def m s_def Let_def)
  have lo: "2 powr of_int K = of_int (2 ^ (sig_bits fmt - 1)) * s"
    unfolding s_def using p by (rule scale_of_binade(1))
  have "of_int (2 ^ (sig_bits fmt - 1)) * s \<le> x"
    using floor_log2_bounds(1) [OF x] lo by (simp add: K_def)
  then have "of_int (2 ^ (sig_bits fmt - 1)) \<le> x / s"
    using s by (simp add: pos_le_divide_eq)
  then have "2 ^ (sig_bits fmt - 1) \<le> round_half_even (x / s)"
    by (rule round_half_even_ge)
  then have "(of_int (2 ^ (sig_bits fmt - 1)) :: real) \<le> of_int (round_half_even (x / s))"
    by (simp only: of_int_le_iff)
  then have "of_int (2 ^ (sig_bits fmt - 1)) * s \<le> of_int (round_half_even (x / s)) * s"
    using s by (simp only: mult_le_cancel_right_pos)
  then show ?thesis
    using lo r by (simp add: K_def)
qed

lemma round_magnitude_nonneg:
  assumes "0 < x"
  shows "0 \<le> round_magnitude fmt x"
proof -
  define s :: real where
    "s = 2 powr of_int (max \<lfloor>log 2 x\<rfloor> (min_exp fmt) - int (sig_bits fmt) + 1)"
  have s: "0 < s"
    by (simp add: s_def)
  have "of_int 0 \<le> x / s"
    using assms s by simp
  then have "0 \<le> round_half_even (x / s)"
    by (rule round_half_even_ge)
  then show ?thesis
    using s by (simp add: round_magnitude_def Let_def s_def)
qed

lemma round_magnitude_mono:
  assumes x: "0 < x" and le: "x \<le> y" and p: "0 < sig_bits fmt"
  shows "round_magnitude fmt x \<le> round_magnitude fmt y"
proof -
  have y: "0 < y"
    using x le by simp
  have k: "\<lfloor>log 2 x\<rfloor> \<le> \<lfloor>log 2 y\<rfloor>"
    using x le by (intro floor_mono) simp
  define Kx where "Kx = max \<lfloor>log 2 x\<rfloor> (min_exp fmt)"
  define Ky where "Ky = max \<lfloor>log 2 y\<rfloor> (min_exp fmt)"
  have K: "Kx \<le> Ky"
    using k by (simp add: Kx_def Ky_def)
  show ?thesis
  proof (cases "Kx = Ky")
    case True
    define s :: real where "s = 2 powr of_int (Ky - int (sig_bits fmt) + 1)"
    have s: "0 < s"
      by (simp add: s_def)
    have "x / s \<le> y / s"
      using le s by (simp add: divide_right_mono)
    then have "round_half_even (x / s) \<le> round_half_even (y / s)"
      by (rule round_half_even_mono)
    then have "(of_int (round_half_even (x / s)) :: real) \<le> of_int (round_half_even (y / s))"
      by (simp only: of_int_le_iff)
    then have "of_int (round_half_even (x / s)) * s \<le> of_int (round_half_even (y / s)) * s"
      using s by (simp only: mult_le_cancel_right_pos)
    then show ?thesis
      using True by (simp add: round_magnitude_def Let_def s_def Kx_def Ky_def)
  next
    case False
    with K have lt: "Kx + 1 \<le> Ky"
      by simp
    then have ky: "Ky = \<lfloor>log 2 y\<rfloor>" "min_exp fmt \<le> \<lfloor>log 2 y\<rfloor>"
      unfolding Kx_def Ky_def by linarith+
    have a: "(2::real) powr of_int (Kx + 1) \<le> 2 powr of_int Ky"
      using lt by (intro powr_mono) simp_all
    have b: "round_magnitude fmt x \<le> 2 powr of_int (Kx + 1)"
      unfolding Kx_def by (rule round_magnitude_upper [OF x p])
    have c: "2 powr of_int Ky \<le> round_magnitude fmt y"
      unfolding ky(1) by (rule round_magnitude_lower [OF y p ky(2)])
    show ?thesis
      using a b c by linarith
  qed
qed

lemma ieee_round_zero: "ieee_round fmt 0 = 0"
  by (simp add: ieee_round_def)

lemma ieee_round_uminus: "ieee_round fmt (- x) = - ieee_round fmt x"
  by (simp add: ieee_round_def sgn_minus)

lemma ieee_round_mono:
  assumes p: "0 < sig_bits fmt" and le: "x \<le> y"
  shows "ieee_round fmt x \<le> ieee_round fmt y"
proof -
  consider "x = 0" | "y = 0" | "x < 0" "0 < y" | "0 < x" | "y < 0"
    using le by linarith
  then show ?thesis
  proof cases
    case 1
    then show ?thesis
      using le round_magnitude_nonneg [of y fmt]
      by (cases "y = 0") (simp_all add: ieee_round_def)
  next
    case 2
    then show ?thesis
      using le round_magnitude_nonneg [of "- x" fmt]
      by (cases "x = 0") (simp_all add: ieee_round_def)
  next
    case 3
    then show ?thesis
      using round_magnitude_nonneg [of "- x" fmt] round_magnitude_nonneg [of y fmt]
      by (simp add: ieee_round_def)
  next
    case 4
    then show ?thesis
      using le p round_magnitude_mono [of x y fmt]
      by (simp add: ieee_round_def)
  next
    case 5
    then show ?thesis
      using le p round_magnitude_mono [of "- y" "- x" fmt]
      by (simp add: ieee_round_def)
  qed
qed

lemma ieee_round_nonneg: "0 < sig_bits fmt \<Longrightarrow> 0 \<le> x \<Longrightarrow> 0 \<le> ieee_round fmt x"
  using ieee_round_mono [of fmt 0 x] by (simp add: ieee_round_zero)

lemma round_magnitude_eval:
  assumes "2 powr of_int k \<le> x" "x < 2 powr of_int (k + 1)"
  shows "round_magnitude fmt x =
     of_int (round_half_even (x / 2 powr of_int (max k (min_exp fmt) - int (sig_bits fmt) + 1))) *
     2 powr of_int (max k (min_exp fmt) - int (sig_bits fmt) + 1)"
  using floor_log2_eq [OF assms] by (simp add: round_magnitude_def Let_def)

lemma ieee_round_eval:
  assumes "2 powr of_int k \<le> x" "x < 2 powr of_int (k + 1)" "min_exp fmt \<le> k"
  shows "ieee_round fmt x =
     of_int (round_half_even (x / 2 powr of_int (k - int (sig_bits fmt) + 1))) *
     2 powr of_int (k - int (sig_bits fmt) + 1)"
proof -
  have "0 < x"
    using assms(1) by (rule less_le_trans [rotated]) simp
  moreover have "max k (min_exp fmt) = k"
    using assms(3) by simp
  ultimately show ?thesis
    using round_magnitude_eval [OF assms(1,2), of fmt] by (simp add: ieee_round_def)
qed

lemma ieee_round_exact:
  assumes "2 powr of_int k \<le> x" "x < 2 powr of_int (k + 1)" "min_exp fmt \<le> k"
    and "x / 2 powr of_int (k - int (sig_bits fmt) + 1) = of_int n"
  shows "ieee_round fmt x = x"
proof -
  have "ieee_round fmt x = of_int n * 2 powr of_int (k - int (sig_bits fmt) + 1)"
    using ieee_round_eval [OF assms(1,2,3)] by (simp only: assms(4) round_half_even_of_int)
  also have "\<dots> = x"
    unfolding assms(4) [symmetric] by simp
  finally show ?thesis .
qed

lemma ieee_round_power_of_two:
  assumes p: "0 < sig_bits fmt" and m: "min_exp fmt \<le> m"
  shows "ieee_round fmt (2 powr of_int m) = 2 powr of_int m"
proof (rule ieee_round_exact [where k = m and n = "2 ^ (sig_bits fmt - 1)"])
  show "(2::real) powr of_int m \<le> 2 powr of_int m"
    by simp
  show "(2::real) powr of_int m < 2 powr of_int (m + 1)"
    by (intro powr_less_mono) simp_all
  show "min_exp fmt \<le> m"
    by (rule m)
  show "2 powr of_int m / 2 powr of_int (m - int (sig_bits fmt) + 1) = (of_int (2 ^ (sig_bits fmt - 1)) :: real)"
    using scale_of_binade(1) [OF p, of m] by simp
qed

lemma ieee_round_abs_le:
  assumes p: "0 < sig_bits fmt" and m: "min_exp fmt \<le> m" and x: "\<bar>x\<bar> \<le> 2 powr of_int m"
  shows "\<bar>ieee_round fmt x\<bar> \<le> 2 powr of_int m"
proof -
  have "ieee_round fmt x \<le> ieee_round fmt (2 powr of_int m)"
    using x by (intro ieee_round_mono [OF p]) simp
  moreover have "ieee_round fmt (- (2 powr of_int m)) \<le> ieee_round fmt x"
    using x by (intro ieee_round_mono [OF p]) simp
  ultimately show ?thesis
    by (simp add: ieee_round_uminus ieee_round_power_of_two [OF p m] abs_le_iff)
qed


lemma floor_log2_le:
  assumes "0 < r" "r < 2 powr of_int (K + 1)"
  shows "\<lfloor>log 2 r\<rfloor> \<le> K"
proof -
  have "log 2 r < of_int (K + 1)"
    using log_less_iff [of 2 r "of_int (K + 1)"] assms by simp
  then show ?thesis
    by linarith
qed

lemma floor_log2_ge:
  assumes "2 powr of_int k \<le> r"
  shows "k \<le> \<lfloor>log 2 r\<rfloor>"
proof -
  have "0 < r"
    using assms by (rule less_le_trans [rotated]) simp
  then have "of_int k \<le> log 2 r"
    using le_log_iff [of 2 r "of_int k"] assms by simp
  then show ?thesis
    by (simp add: le_floor_iff)
qed

lemma round_magnitude_idem:
  assumes x: "0 < x" and p: "0 < sig_bits fmt" and r: "0 < round_magnitude fmt x"
  shows "round_magnitude fmt (round_magnitude fmt x) = round_magnitude fmt x"
proof -
  define k where "k = \<lfloor>log 2 x\<rfloor>"
  define K where "K = max k (min_exp fmt)"
  define s :: real where "s = 2 powr of_int (K - int (sig_bits fmt) + 1)"
  define n where "n = round_half_even (x / s)"
  define r where "r = round_magnitude fmt x"
  have s: "0 < s"
    by (simp add: s_def)
  have rn: "r = of_int n * s"
    by (simp add: r_def n_def s_def K_def k_def round_magnitude_def Let_def)
  have pos: "0 < r"
    using assms(3) by (simp add: r_def)
  have hi: "r \<le> 2 powr of_int (K + 1)"
    using round_magnitude_upper [OF x p] by (simp add: r_def K_def k_def)
  show ?thesis
  proof (cases "r < 2 powr of_int (K + 1)")
    case True
    have le: "\<lfloor>log 2 r\<rfloor> \<le> K"
      using pos True by (rule floor_log2_le)
    have "max \<lfloor>log 2 r\<rfloor> (min_exp fmt) = K"
    proof (cases "min_exp fmt \<le> k")
      case True
      then have "2 powr of_int k \<le> r"
        using round_magnitude_lower [OF x p] by (simp add: r_def k_def)
      then have "k \<le> \<lfloor>log 2 r\<rfloor>"
        by (rule floor_log2_ge)
      then show ?thesis
        using le True by (simp add: K_def)
    next
      case False
      then show ?thesis
        using le by (simp add: K_def)
    qed
    then have "round_magnitude fmt r = of_int (round_half_even (r / s)) * s"
      by (simp add: round_magnitude_def Let_def s_def)
    also have "r / s = of_int n"
      using s by (simp add: rn)
    also have "round_half_even (of_int n) = n"
      by (rule round_half_even_of_int)
    finally show ?thesis
      using rn by (simp add: r_def)
  next
    case False
    with hi have eq: "r = 2 powr of_int (K + 1)"
      by simp
    have "ieee_round fmt (2 powr of_int (K + 1)) = 2 powr of_int (K + 1)"
      using p by (rule ieee_round_power_of_two) (simp add: K_def)
    then have "round_magnitude fmt r = r"
      unfolding eq by (simp add: ieee_round_def)
    then show ?thesis
      by (simp add: r_def)
  qed
qed

lemma ieee_round_idem:
  assumes p: "0 < sig_bits fmt"
  shows "ieee_round fmt (ieee_round fmt x) = ieee_round fmt x"
proof (cases "x = 0 \<or> round_magnitude fmt \<bar>x\<bar> = 0")
  case True
  then show ?thesis
    by (auto simp: ieee_round_def)
next
  case False
  then have a: "0 < \<bar>x\<bar>" and ne: "round_magnitude fmt \<bar>x\<bar> \<noteq> 0"
    by simp_all
  have m: "0 < round_magnitude fmt \<bar>x\<bar>"
    using round_magnitude_nonneg [OF a, of fmt] ne by simp
  have i: "round_magnitude fmt (round_magnitude fmt \<bar>x\<bar>) = round_magnitude fmt \<bar>x\<bar>"
    using a p m by (rule round_magnitude_idem)
  show ?thesis
  proof (cases "0 < x")
    case True
    then show ?thesis
      using m i by (simp add: ieee_round_def)
  next
    case False
    with a have "x < 0"
      by simp
    then show ?thesis
      using m i by (simp add: ieee_round_def)
  qed
qed

lemma round_half_even_down:
  "of_int f \<le> y \<Longrightarrow> y < of_int f + 1 / 2 \<Longrightarrow> round_half_even y = f"
proof -
  assume a: "of_int f \<le> y" "y < of_int f + 1 / 2"
  then have "\<lfloor>y\<rfloor> = f"
    by (intro floor_unique) simp_all
  then show ?thesis
    using a by (simp add: round_half_even_def)
qed

lemma round_half_even_up:
  "of_int f + 1 / 2 < y \<Longrightarrow> y < of_int f + 1 \<Longrightarrow> round_half_even y = f + 1"
proof -
  assume a: "of_int f + 1 / 2 < y" "y < of_int f + 1"
  then have "\<lfloor>y\<rfloor> = f"
    by (intro floor_unique) simp_all
  then show ?thesis
    using a by (simp add: round_half_even_def)
qed

lemma ieee_round_one:
  assumes "0 < sig_bits fmt" "min_exp fmt \<le> 0"
  shows "ieee_round fmt 1 = 1"
  using ieee_round_power_of_two [OF assms(1), of 0] assms(2) by simp

lemma format_facts:
  "0 < sig_bits binary64" "min_exp binary64 \<le> 0" "sig_bits binary64 = 53"
  "min_exp binary64 = - 1022" "max_exp binary64 = 1023"
  "0 < sig_bits binary32" "min_exp binary32 \<le> 0" "sig_bits binary32 = 24"
  "min_exp binary32 = - 126" "max_exp binary32 = 127"
  by (simp_all add: binary64_def binary32_def)

lemma two_powr_numeral: "(2::real) powr (numeral n) = 2 ^ numeral n"
  by simp

lemma two_powr_neg_numeral: "(2::real) powr (- numeral n) = 1 / 2 ^ numeral n"
  by (simp add: powr_minus_divide)

lemmas powr_eval = two_powr_numeral two_powr_neg_numeral

lemma in_range_le:
  assumes "\<bar>r\<bar> \<le> 2 powr of_int m" "m \<le> max_exp fmt"
  shows "in_range fmt r"
proof -
  have "(2::real) powr of_int m < 2 powr of_int (max_exp fmt + 1)"
    using assms(2) by (intro powr_less_mono) simp_all
  then show ?thesis
    using assms(1) unfolding in_range_def by linarith
qed

lemma small_in_range:
  assumes "fmt = binary32 \<or> fmt = binary64" "\<bar>r\<bar> \<le> 1024"
  shows "in_range fmt r"
proof (rule in_range_le [where m = 10])
  show "\<bar>r\<bar> \<le> 2 powr of_int 10"
    using assms(2) by simp
  show "10 \<le> max_exp fmt"
    using assms(1) by (auto simp: binary32_def binary64_def)
qed

lemma small_bound:
  fixes r :: real
  assumes "fmt = binary32 \<or> fmt = binary64" "\<bar>r\<bar> \<le> 1024"
  shows "\<bar>r\<bar> \<le> 2 powr of_int (max_exp fmt - 2)"
proof -
  have "(2::real) powr of_int 10 \<le> 2 powr of_int (max_exp fmt - 2)"
    using assms(1) by (intro powr_mono) (auto simp: binary32_def binary64_def)
  then show ?thesis
    using assms(2) by simp
qed

subsection \<open>The mapper in machine arithmetic\<close>

lemma two_powr_steps:
  "(2::real) powr of_int (E - 1) = 2 * 2 powr of_int (E - 2)"
  "(2::real) powr of_int E = 4 * 2 powr of_int (E - 2)"
  "(2::real) powr of_int (E + 1) = 8 * 2 powr of_int (E - 2)"
proof -
  have a: "(2::real) powr (1 + of_int (E - 2)) = 2 powr 1 * 2 powr of_int (E - 2)"
    "(2::real) powr (2 + of_int (E - 2)) = 2 powr 2 * 2 powr of_int (E - 2)"
    "(2::real) powr (3 + of_int (E - 2)) = 2 powr 3 * 2 powr of_int (E - 2)"
    by (rule powr_add)+
  have b: "of_int (E - 1) = 1 + (of_int (E - 2) :: real)" "of_int E = 2 + (of_int (E - 2) :: real)"
    "of_int (E + 1) = 3 + (of_int (E - 2) :: real)"
    by simp_all
  have c: "(2::real) powr 1 = 2" "(2::real) powr 2 = 4" "(2::real) powr 3 = 8"
    by simp_all
  show "(2::real) powr of_int (E - 1) = 2 * 2 powr of_int (E - 2)"
    unfolding b(1) a(1) c(1) ..
  show "(2::real) powr of_int E = 4 * 2 powr of_int (E - 2)"
    unfolding b(2) a(2) c(2) ..
  show "(2::real) powr of_int (E + 1) = 8 * 2 powr of_int (E - 2)"
    unfolding b(3) a(3) c(3) ..
qed

lemma rounded_affine_mono:
  assumes p: "0 < sig_bits fmt" and d: "0 \<le> d" and le: "v \<le> w"
  shows "ieee_round fmt (ieee_round fmt (v * d) + l) \<le> ieee_round fmt (ieee_round fmt (w * d) + l)"
    and "ieee_round fmt (v * d + l) \<le> ieee_round fmt (w * d + l)"
proof -
  have m: "v * d \<le> w * d"
    using le d by (rule mult_right_mono)
  then have "ieee_round fmt (v * d) \<le> ieee_round fmt (w * d)"
    by (rule ieee_round_mono [OF p])
  then have "ieee_round fmt (v * d) + l \<le> ieee_round fmt (w * d) + l"
    by simp
  then show "ieee_round fmt (ieee_round fmt (v * d) + l) \<le> ieee_round fmt (ieee_round fmt (w * d) + l)"
    by (rule ieee_round_mono [OF p])
  from m have "v * d + l \<le> w * d + l"
    by simp
  then show "ieee_round fmt (v * d + l) \<le> ieee_round fmt (w * d + l)"
    by (rule ieee_round_mono [OF p])
qed

lemma transform_domain_ieee_in_range:
  assumes p: "0 < sig_bits fmt"
    and e1: "min_exp fmt \<le> max_exp fmt - 2"
    and e2: "max_exp fmt \<le> 1023"
    and e3: "- 1021 \<le> max_exp fmt"
    and unit: "\<forall>v \<in> set vals. 0 \<le> v \<and> v \<le> 1"
    and lo: "\<bar>lo\<bar> \<le> 2 powr of_int (max_exp fmt - 2)"
    and hi: "\<bar>hi\<bar> \<le> 2 powr of_int (max_exp fmt - 2)"
  shows "transform_domain_ieee fmt fused vals lo hi =
     Some (map (\<lambda>v. if fused
                      then ieee_round fmt (v * ieee_round fmt (ieee_round binary64 (hi - lo))
                                           + ieee_round fmt lo)
                      else ieee_round fmt (ieee_round fmt (v * ieee_round fmt (ieee_round binary64 (hi - lo)))
                                           + ieee_round fmt lo)) vals)"
proof -
  define E where "E = max_exp fmt"
  define u :: real where "u = 2 powr of_int (E - 2)"
  define difference where "difference = ieee_round binary64 (hi - lo)"
  define delta where "delta = ieee_round fmt difference"
  define l where "l = ieee_round fmt lo"
  have u: "0 < u"
    by (simp add: u_def)
  note st = two_powr_steps [of E, folded u_def]
  have m1: "min_exp binary64 \<le> E - 1" "min_exp fmt \<le> E - 1" "min_exp fmt \<le> E - 2"
    "min_exp fmt \<le> E"
    using e1 e3 by (simp_all add: binary64_def E_def)
  have p64: "0 < sig_bits binary64"
    by (simp add: binary64_def)
  have "\<bar>hi - lo\<bar> \<le> 2 powr of_int (E - 1)"
    using lo hi unfolding st E_def [symmetric] u_def [symmetric] by linarith
  then have dfp: "\<bar>difference\<bar> \<le> 2 powr of_int (E - 1)"
    unfolding difference_def by (rule ieee_round_abs_le [OF p64 m1(1)])
  then have df: "\<bar>difference\<bar> \<le> 2 * u"
    by (simp only: st)
  have "(2::real) powr of_int (E - 1) < 2 powr of_int (max_exp binary64 + 1)"
    using e2 by (intro powr_less_mono) (simp_all add: binary64_def E_def)
  then have r1: "in_range binary64 difference"
    using dfp unfolding in_range_def by linarith
  have "\<bar>delta\<bar> \<le> 2 powr of_int (E - 1)"
    unfolding delta_def using dfp by (rule ieee_round_abs_le [OF p m1(2)])
  then have dl: "\<bar>delta\<bar> \<le> 2 * u"
    by (simp only: st)
  have r2: "in_range fmt delta"
    using dl u unfolding in_range_def E_def [symmetric] st by linarith
  have "\<bar>lo\<bar> \<le> 2 powr of_int (E - 2)"
    using lo by (simp only: E_def)
  then have "\<bar>l\<bar> \<le> 2 powr of_int (E - 2)"
    unfolding l_def by (rule ieee_round_abs_le [OF p m1(3)])
  then have ll: "\<bar>l\<bar> \<le> u"
    by (simp only: u_def)
  have r3: "in_range fmt l"
    using ll u unfolding in_range_def E_def [symmetric] st by linarith
  have each: "in_range fmt (ieee_round fmt (v * delta))
             \<and> in_range fmt (ieee_round fmt (v * delta + l))
             \<and> in_range fmt (ieee_round fmt (ieee_round fmt (v * delta) + l))"
    if v: "0 \<le> v" "v \<le> 1" for v
  proof -
    have "\<bar>v * delta\<bar> \<le> 1 * \<bar>delta\<bar>"
      unfolding abs_mult using v by (intro mult_right_mono) simp_all
    then have vd: "\<bar>v * delta\<bar> \<le> 2 * u"
      using dl by simp
    then have "\<bar>v * delta\<bar> \<le> 2 powr of_int (E - 1)"
      by (simp only: st)
    then have "\<bar>ieee_round fmt (v * delta)\<bar> \<le> 2 powr of_int (E - 1)"
      by (rule ieee_round_abs_le [OF p m1(2)])
    then have pr: "\<bar>ieee_round fmt (v * delta)\<bar> \<le> 2 * u"
      by (simp only: st)
    have "\<bar>v * delta + l\<bar> \<le> 2 powr of_int E"
      using vd ll unfolding st by linarith
    then have "\<bar>ieee_round fmt (v * delta + l)\<bar> \<le> 2 powr of_int E"
      by (rule ieee_round_abs_le [OF p m1(4)])
    then have a: "\<bar>ieee_round fmt (v * delta + l)\<bar> \<le> 4 * u"
      by (simp only: st)
    have "\<bar>ieee_round fmt (v * delta) + l\<bar> \<le> 2 powr of_int E"
      using pr ll unfolding st by linarith
    then have "\<bar>ieee_round fmt (ieee_round fmt (v * delta) + l)\<bar> \<le> 2 powr of_int E"
      by (rule ieee_round_abs_le [OF p m1(4)])
    then have b: "\<bar>ieee_round fmt (ieee_round fmt (v * delta) + l)\<bar> \<le> 4 * u"
      by (simp only: st)
    show ?thesis
      using pr a b u unfolding in_range_def E_def [symmetric] st by linarith
  qed
  show ?thesis
    unfolding transform_domain_ieee_def Let_def list_all_iff
    using r1 r2 r3 unit each
    by (auto simp: difference_def delta_def l_def)
qed

lemma transform_domain_ieee_eval:
  assumes D: "ieee_round binary64 (upper - lower) = D"
    and d: "ieee_round fmt D = d"
    and l: "ieee_round fmt lower = l"
    and r: "in_range binary64 D" "in_range fmt d" "in_range fmt l"
    and each: "list_all2 (\<lambda>v y. in_range fmt (ieee_round fmt (v * d))
                 \<and> ieee_round fmt (ieee_round fmt (v * d) + l) = y
                 \<and> ieee_round fmt (v * d + l) = y \<and> in_range fmt y) vals ys"
  shows "transform_domain_ieee fmt fused vals lower upper = Some ys"
proof -
  have len: "length vals = length ys"
    using each by (rule list_all2_lengthD)
  have nth: "in_range fmt (ieee_round fmt (vals ! i * d))
       \<and> ieee_round fmt (ieee_round fmt (vals ! i * d) + l) = ys ! i
       \<and> ieee_round fmt (vals ! i * d + l) = ys ! i \<and> in_range fmt (ys ! i)"
    if "i < length vals" for i
    using each that by (simp add: list_all2_conv_all_nth)
  have m: "map (\<lambda>v. if fused then ieee_round fmt (v * d + l)
                    else ieee_round fmt (ieee_round fmt (v * d) + l)) vals = ys"
    using len nth by (intro nth_equalityI) simp_all
  have a: "list_all (\<lambda>v. (fused \<or> in_range fmt (ieee_round fmt (v * d)))
              \<and> in_range fmt (if fused then ieee_round fmt (v * d + l)
                                else ieee_round fmt (ieee_round fmt (v * d) + l))) vals"
    unfolding list_all_length using nth by auto
  show ?thesis
    unfolding transform_domain_ieee_def Let_def D d l
    using r a m by simp
qed

text \<open>Some numbers of the \<^verbatim>\<open>double\<close> format, and roundings to it and to \<^verbatim>\<open>float\<close>.\<close>

lemma ieee_round_double_values:
  "ieee_round binary64 20 = 20" "ieee_round binary64 10 = 10" "ieee_round binary64 5 = 5"
  "ieee_round binary64 (- 10) = - 10" "ieee_round binary64 (- 5) = - 5"
  "ieee_round binary64 2 = 2" "ieee_round binary64 (- 2) = - 2"
  "ieee_round binary64 200 = 200" "ieee_round binary64 (- 100) = - 100"
  using ieee_round_exact [where k = 4 and n = "5 * 2 ^ 50" and x = 20 and fmt = binary64]
    ieee_round_exact [where k = 3 and n = "5 * 2 ^ 50" and x = 10 and fmt = binary64]
    ieee_round_exact [where k = 2 and n = "5 * 2 ^ 50" and x = 5 and fmt = binary64]
    ieee_round_exact [where k = 1 and n = "2 ^ 52" and x = 2 and fmt = binary64]
    ieee_round_exact [where k = 7 and n = "200 * 2 ^ 45" and x = 200 and fmt = binary64]
    ieee_round_exact [where k = 6 and n = "100 * 2 ^ 46" and x = 100 and fmt = binary64]
  by (simp_all add: ieee_round_uminus powr_eval binary64_def)

lemma double_one_tenth:
  "ieee_round binary64 (3602879701896397 / 2 ^ 55) = 3602879701896397 / 2 ^ 55"
  by (rule ieee_round_exact [where k = "- 4" and n = 7205759403792794])
    (simp_all add: powr_eval binary64_def)

lemma double_M_PI:
  "ieee_round binary64 (884279719003555 / 2 ^ 48) = 884279719003555 / 2 ^ 48"
  by (rule ieee_round_exact [where k = 1 and n = 7074237752028440])
    (simp_all add: powr_eval binary64_def)

lemma double_example_difference:
  "ieee_round binary64 (3602879701896397 / 2 ^ 55 - (- 2)) = 4728779608739021 / 2 ^ 51"
proof -
  have "round_half_even ((3602879701896397 / 2 ^ 55 - (- 2)) / 2 powr of_int (1 - int 53 + 1)) =
          4728779608739020 + 1"
    by (rule round_half_even_up) (simp_all add: powr_eval)
  then show ?thesis
    using ieee_round_eval [of 1 "3602879701896397 / 2 ^ 55 - (- 2)" binary64]
    by (simp add: powr_eval binary64_def)
qed

lemma double_example_delta:
  "ieee_round binary64 (4728779608739021 / 2 ^ 51) = 4728779608739021 / 2 ^ 51"
  by (rule ieee_round_exact [where k = 1 and n = 4728779608739021])
    (simp_all add: powr_eval binary64_def)

lemma double_example_sum:
  "ieee_round binary64 (4728779608739021 / 2 ^ 51 + - 2) = 225179981368525 / 2 ^ 51"
  using ieee_round_exact [where k = "- 4" and n = 7205759403792800
      and x = "4728779608739021 / 2 ^ 51 + - 2" and fmt = binary64]
  by (simp add: powr_eval binary64_def)

lemma float_example_difference:
  "ieee_round binary64 (2 * (884279719003555 / 2 ^ 48) - 0) = 884279719003555 / 2 ^ 47"
  using ieee_round_exact [where k = 2 and n = "7074237752028440"
      and x = "884279719003555 / 2 ^ 47" and fmt = binary64]
  by (simp add: powr_eval binary64_def)

lemma float_example_delta:
  "ieee_round binary32 (884279719003555 / 2 ^ 47) = 13176795 / 2 ^ 21"
proof -
  have "round_half_even (884279719003555 / 2 ^ 47 / 2 powr of_int (2 - int 24 + 1)) = 13176794 + 1"
    by (rule round_half_even_up) (simp_all add: powr_eval)
  then show ?thesis
    using ieee_round_eval [of 2 "884279719003555 / 2 ^ 47" binary32]
    by (simp add: powr_eval binary32_def)
qed

lemma float_example_product:
  "ieee_round binary32 (13176795 / 2 ^ 21) = 13176795 / 2 ^ 21"
  by (rule ieee_round_exact [where k = 2 and n = 13176795]) (simp_all add: powr_eval binary32_def)

lemma collision_product:
  "ieee_round binary64 (1 / 2 ^ 70 * 200) = 1 / 2 ^ 70 * 200"
  by (rule ieee_round_exact [where k = "- 63" and n = "200 * 2 ^ 45"])
    (simp_all add: powr_eval binary64_def)

lemma collision_sum: "ieee_round binary64 (1 / 2 ^ 70 * 200 + - 100) = - 100"
proof -
  have "round_half_even ((100 - 1 / 2 ^ 70 * 200) / 2 powr of_int (6 - int 53 + 1)) =
          (100 * 2 ^ 46 - 1) + 1"
    by (rule round_half_even_up) (simp_all add: powr_eval)
  then have "ieee_round binary64 (100 - 1 / 2 ^ 70 * 200) = 100"
    using ieee_round_eval [of 6 "100 - 1 / 2 ^ 70 * 200" binary64]
    by (simp add: powr_eval binary64_def)
  then have "ieee_round binary64 (- (100 - 1 / 2 ^ 70 * 200)) = - 100"
    by (simp only: ieee_round_uminus)
  then show ?thesis
    by simp
qed

text \<open>
  Claim C2, as the code has it. For a domain \<open>(lo, hi)\<close> with \<open>lo < hi\<close> whose bounds are
  at most \<open>2 ^ 1021\<close> in magnitude (\<open>2 ^ 125\<close> on a \<^verbatim>\<open>float\<close> buffer) and a sample whose
  entries all lie in \<open>[0, 1]\<close>, no operation of the mapper overflows, and the mapper
  computes \<open>v * (hi - lo) + lo\<close> entry by entry with every operation rounded: the output
  has the length of the input, and an entry of the output is a function of the entry of
  the input alone. The map preserves the order of any two entries (weakly: rounding can
  send two entries to one value). Every output lies between the rounded lower bound,
  which is \<open>lo\<close> itself when \<open>lo\<close> is a number of the format, and the image of the entry
  1, the rounded sum of \<^verbatim>\<open>delta\<close> and the lower bound.
\<close>

theorem transform_domain_rounded_monotone_range:
  assumes dom: "lo < hi"
    and unit: "\<forall>v \<in> set vals. 0 \<le> v \<and> v \<le> 1"
    and fmt: "fmt = binary32 \<or> fmt = binary64"
    and lo: "\<bar>lo\<bar> \<le> 2 powr of_int (max_exp fmt - 2)"
    and hi: "\<bar>hi\<bar> \<le> 2 powr of_int (max_exp fmt - 2)"
  shows "\<exists>ys.
         transform_domain_ieee fmt fused vals lo hi = Some ys
       \<and> ys = map (\<lambda>v. if fused
                      then ieee_round fmt (v * ieee_round fmt (ieee_round binary64 (hi - lo))
                                           + ieee_round fmt lo)
                      else ieee_round fmt (ieee_round fmt (v * ieee_round fmt (ieee_round binary64 (hi - lo)))
                                           + ieee_round fmt lo)) vals
       \<and> length ys = length vals
       \<and> (\<forall>i < length vals. \<forall>j < length vals. vals ! i \<le> vals ! j \<longrightarrow> ys ! i \<le> ys ! j)
       \<and> (\<forall>y \<in> set ys.
             ieee_round fmt lo \<le> y
           \<and> y \<le> ieee_round fmt (ieee_round fmt (ieee_round binary64 (hi - lo)) + ieee_round fmt lo))
       \<and> (ieee_round fmt lo = lo \<longrightarrow> (\<forall>y \<in> set ys. lo \<le> y))"
proof -
  define d where "d = ieee_round fmt (ieee_round binary64 (hi - lo))"
  define l where "l = ieee_round fmt lo"
  define f where "f = (\<lambda>v. if fused then ieee_round fmt (v * d + l)
                           else ieee_round fmt (ieee_round fmt (v * d) + l))"
  define ys where "ys = map f vals"
  have prec: "0 < sig_bits fmt"
    and e: "min_exp fmt \<le> max_exp fmt - 2" "max_exp fmt \<le> 1023" "- 1021 \<le> max_exp fmt"
    using fmt by (auto simp: binary32_def binary64_def)
  have some: "transform_domain_ieee fmt fused vals lo hi = Some ys"
    unfolding ys_def f_def d_def l_def
    using prec e unit lo hi by (rule transform_domain_ieee_in_range)
  have "0 \<le> ieee_round binary64 (hi - lo)"
    using dom by (intro ieee_round_nonneg) (simp_all add: binary64_def)
  then have d0: "0 \<le> d"
    unfolding d_def by (rule ieee_round_nonneg [OF prec])
  have mono: "f v \<le> f w" if "v \<le> w" for v w
    unfolding f_def using rounded_affine_mono [OF prec d0 that] by simp
  have at0: "f 0 = l"
    by (simp add: f_def ieee_round_zero l_def ieee_round_idem [OF prec])
  have at1: "f 1 = ieee_round fmt (d + l)"
    by (simp add: f_def d_def ieee_round_idem [OF prec])
  have ord: "\<forall>i < length vals. \<forall>j < length vals. vals ! i \<le> vals ! j \<longrightarrow> ys ! i \<le> ys ! j"
    unfolding ys_def using mono by simp
  have rng: "\<forall>y \<in> set ys. l \<le> y \<and> y \<le> ieee_round fmt (d + l)"
  proof
    fix y
    assume "y \<in> set ys"
    then obtain v where v: "v \<in> set vals" and y: "y = f v"
      unfolding ys_def by auto
    from v unit have "0 \<le> v" "v \<le> 1"
      by auto
    then have "f 0 \<le> f v" "f v \<le> f 1"
      by (simp_all add: mono)
    then show "l \<le> y \<and> y \<le> ieee_round fmt (d + l)"
      by (simp add: y at0 at1)
  qed
  have low: "ieee_round fmt lo = lo \<longrightarrow> (\<forall>y \<in> set ys. lo \<le> y)"
    using rng unfolding l_def by auto
  have len: "length ys = length vals"
    by (simp add: ys_def)
  have eq: "ys = map (\<lambda>v. if fused
                      then ieee_round fmt (v * ieee_round fmt (ieee_round binary64 (hi - lo))
                                           + ieee_round fmt lo)
                      else ieee_round fmt (ieee_round fmt (v * ieee_round fmt (ieee_round binary64 (hi - lo)))
                                           + ieee_round fmt lo)) vals"
    by (simp add: ys_def f_def d_def l_def)
  show ?thesis
    using some eq len ord rng low unfolding d_def l_def by blast
qed

theorem transform_domain_rounded_monotone_range_witness:
  "(- 10 :: real) < 10
   \<and> transform_domain_ieee binary64 False [0, 1 / 4, 1 / 2, 1] (- 10) 10 = Some [- 10, - 5, 0, 10]
   \<and> transform_domain_ieee binary64 True [0, 1 / 4, 1 / 2, 1] (- 10) 10 = Some [- 10, - 5, 0, 10]"
proof -
  have h1: "(- 10 :: real) < 10"
    by simp
  have h2: "\<forall>v \<in> set [0, 1 / 4, 1 / 2, 1 :: real]. 0 \<le> v \<and> v \<le> 1"
    by simp
  have h3: "binary64 = binary32 \<or> binary64 = binary64"
    by simp
  have h4: "\<bar>- 10 :: real\<bar> \<le> 2 powr of_int (max_exp binary64 - 2)"
    "\<bar>10 :: real\<bar> \<le> 2 powr of_int (max_exp binary64 - 2)"
    by (rule small_bound [OF h3], simp)+
  have d: "ieee_round binary64 (ieee_round binary64 (10 - (- 10))) = 20"
    by (simp add: ieee_round_double_values)
  have a: "transform_domain_ieee binary64 False [0, 1 / 4, 1 / 2, 1] (- 10) 10 = Some [- 10, - 5, 0, 10]"
    using transform_domain_rounded_monotone_range [OF h1 h2 h3 h4, of False]
    unfolding d by (auto simp: ieee_round_double_values ieee_round_zero)
  have b: "transform_domain_ieee binary64 True [0, 1 / 4, 1 / 2, 1] (- 10) 10 = Some [- 10, - 5, 0, 10]"
    using transform_domain_rounded_monotone_range [OF h1 h2 h3 h4, of True]
    unfolding d by (auto simp: ieee_round_double_values ieee_round_zero)
  show ?thesis
    using a b by simp
qed

lemma double_example:
  "transform_domain_ieee binary64 fused [1] (- 2) (3602879701896397 / 2 ^ 55) =
     Some [225179981368525 / 2 ^ 51]"
proof (rule transform_domain_ieee_eval [where D = "4728779608739021 / 2 ^ 51"
      and d = "4728779608739021 / 2 ^ 51" and l = "- 2"])
  show "ieee_round binary64 (3602879701896397 / 2 ^ 55 - - 2) = 4728779608739021 / 2 ^ 51"
    by (rule double_example_difference)
  show "ieee_round binary64 (4728779608739021 / 2 ^ 51) = 4728779608739021 / 2 ^ 51"
    by (rule double_example_delta)
  show "ieee_round binary64 (- 2) = - 2"
    by (rule ieee_round_double_values)
  show "in_range binary64 (4728779608739021 / 2 ^ 51)" "in_range binary64 (4728779608739021 / 2 ^ 51)"
    "in_range binary64 (- 2)"
    by (simp_all add: small_in_range)
  show "list_all2 (\<lambda>v y. in_range binary64 (ieee_round binary64 (v * (4728779608739021 / 2 ^ 51)))
                 \<and> ieee_round binary64 (ieee_round binary64 (v * (4728779608739021 / 2 ^ 51)) + - 2) = y
                 \<and> ieee_round binary64 (v * (4728779608739021 / 2 ^ 51) + - 2) = y
                 \<and> in_range binary64 y) [1] [225179981368525 / 2 ^ 51]"
    unfolding list_all2_Cons list_all2_Nil mult_1 double_example_delta double_example_sum
    by (simp add: small_in_range)
qed

lemma float_example:
  "transform_domain_ieee binary32 fused [1] 0 (2 * (884279719003555 / 2 ^ 48)) =
     Some [13176795 / 2 ^ 21]"
proof (rule transform_domain_ieee_eval [where D = "884279719003555 / 2 ^ 47"
      and d = "13176795 / 2 ^ 21" and l = 0])
  show "ieee_round binary64 (2 * (884279719003555 / 2 ^ 48) - 0) = 884279719003555 / 2 ^ 47"
    by (rule float_example_difference)
  show "ieee_round binary32 (884279719003555 / 2 ^ 47) = 13176795 / 2 ^ 21"
    by (rule float_example_delta)
  show "ieee_round binary32 0 = 0"
    by (rule ieee_round_zero)
  show "in_range binary64 (884279719003555 / 2 ^ 47)" "in_range binary32 (13176795 / 2 ^ 21)"
    "in_range binary32 0"
    by (simp_all add: small_in_range)
  show "list_all2 (\<lambda>v y. in_range binary32 (ieee_round binary32 (v * (13176795 / 2 ^ 21)))
                 \<and> ieee_round binary32 (ieee_round binary32 (v * (13176795 / 2 ^ 21)) + 0) = y
                 \<and> ieee_round binary32 (v * (13176795 / 2 ^ 21) + 0) = y
                 \<and> in_range binary32 y) [1] [13176795 / 2 ^ 21]"
    unfolding list_all2_Cons list_all2_Nil mult_1 add_0_right float_example_product
    by (simp add: small_in_range)
qed

text \<open>
  The image of the entry 1 can lie above \<open>hi\<close>, fused or not. On a \<^verbatim>\<open>double\<close> buffer with
  the domain \<open>(-2, 0.1)\<close>, where \<open>0.1\<close> is the \<^verbatim>\<open>double\<close> \<open>3602879701896397 / 2 ^ 55\<close>, the
  difference \<open>2.1\<close> rounds up and the entry 1 is mapped to \<open>225179981368525 / 2 ^ 51\<close>,
  above the upper bound. On a \<^verbatim>\<open>float\<close> buffer with the domain \<open>(0, 2 * M_PI)\<close> of \<^verbatim>\<open>sin\<close>,
  where \<^verbatim>\<open>M_PI\<close> is the \<^verbatim>\<open>double\<close> \<open>884279719003555 / 2 ^ 48\<close>, the conversion of \<^verbatim>\<open>delta\<close>
  to \<^verbatim>\<open>float\<close> rounds up and the entry 1 is mapped to \<open>13176795 / 2 ^ 21\<close>, above the
  upper bound. The bounds and the entry are numbers of their formats.
\<close>

theorem mapped_output_above_upper_bound:
  "ieee_round binary64 (- 2) = - 2
   \<and> ieee_round binary64 (3602879701896397 / 2 ^ 55) = 3602879701896397 / 2 ^ 55
   \<and> ieee_round binary64 1 = 1
   \<and> (- 2 :: real) < 3602879701896397 / 2 ^ 55
   \<and> (0 :: real) \<le> 1 \<and> (1 :: real) \<le> 1
   \<and> transform_domain_ieee binary64 False [1] (- 2) (3602879701896397 / 2 ^ 55) =
        Some [225179981368525 / 2 ^ 51]
   \<and> transform_domain_ieee binary64 True [1] (- 2) (3602879701896397 / 2 ^ 55) =
        Some [225179981368525 / 2 ^ 51]
   \<and> (3602879701896397 / 2 ^ 55 :: real) < 225179981368525 / 2 ^ 51
   \<and> ieee_round binary64 (884279719003555 / 2 ^ 48) = 884279719003555 / 2 ^ 48
   \<and> ieee_round binary32 1 = 1
   \<and> (0 :: real) < 2 * (884279719003555 / 2 ^ 48)
   \<and> transform_domain_ieee binary32 False [1] 0 (2 * (884279719003555 / 2 ^ 48)) =
        Some [13176795 / 2 ^ 21]
   \<and> transform_domain_ieee binary32 True [1] 0 (2 * (884279719003555 / 2 ^ 48)) =
        Some [13176795 / 2 ^ 21]
   \<and> (2 * (884279719003555 / 2 ^ 48) :: real) < 13176795 / 2 ^ 21"
  using ieee_round_double_values(7) double_one_tenth double_example [of False]
    double_example [of True] double_M_PI float_example [of False] float_example [of True]
  by (simp add: ieee_round_one format_facts)

text \<open>
  The order is not preserved strictly: with the domain \<open>(-100, 100)\<close> of \<^verbatim>\<open>atan\<close> the
  entries \<open>0\<close> and \<open>2 ^ -70\<close> of a \<^verbatim>\<open>double\<close> buffer are both mapped to \<open>-100\<close>.
\<close>

lemma transform_domain_ieee_collision:
  "transform_domain_ieee binary64 fused [0, 1 / 2 ^ 70] (- 100) 100 = Some [- 100, - 100]"
proof (rule transform_domain_ieee_eval [where D = 200 and d = 200 and l = "- 100"])
  show "ieee_round binary64 (100 - - 100) = 200"
    using ieee_round_double_values(8) by simp
  show "ieee_round binary64 200 = 200" "ieee_round binary64 (- 100) = - 100"
    by (rule ieee_round_double_values)+
  show "in_range binary64 200" "in_range binary64 200" "in_range binary64 (- 100)"
    by (simp_all add: small_in_range)
  have z: "ieee_round binary64 (0 * 200) = 0" "ieee_round binary64 (0 + - 100) = - 100"
    "ieee_round binary64 (0 * 200 + - 100) = - 100"
    by (simp_all add: ieee_round_zero ieee_round_double_values)
  have s: "\<bar>1 / 2 ^ 70 * 200 :: real\<bar> \<le> 1024"
    by simp
  show "list_all2 (\<lambda>v y. in_range binary64 (ieee_round binary64 (v * 200))
                 \<and> ieee_round binary64 (ieee_round binary64 (v * 200) + - 100) = y
                 \<and> ieee_round binary64 (v * 200 + - 100) = y
                 \<and> in_range binary64 y) [0, 1 / 2 ^ 70] [- 100, - 100]"
    unfolding list_all2_Cons list_all2_Nil z collision_product collision_sum
    using s by (simp add: small_in_range)
qed

text \<open>
  The bound on the domain is needed: with the domain \<open>(-2 ^ 1023, 2 ^ 1023)\<close> the
  \<^verbatim>\<open>double\<close> subtraction \<^verbatim>\<open>upper - lower\<close> overflows.
\<close>

lemma transform_domain_ieee_overflow:
  "transform_domain_ieee binary64 fused vals (- (2 powr 1023)) (2 powr 1023) = None"
proof -
  have "(2 powr 1023 - - (2 powr 1023) :: real) = 2 * 2 powr of_int (1025 - 2)"
    by simp
  also have "\<dots> = 2 powr of_int (1025 - 1)"
    by (rule two_powr_steps(1) [symmetric])
  finally have e: "(2 powr 1023 - - (2 powr 1023) :: real) = 2 powr of_int 1024"
    by simp
  have "ieee_round binary64 (2 powr of_int 1024) = 2 powr of_int 1024"
    by (rule ieee_round_power_of_two) (simp_all add: binary64_def)
  then have "\<not> in_range binary64 (ieee_round binary64 (2 powr 1023 - - (2 powr 1023)))"
    unfolding e by (simp add: in_range_def binary64_def)
  then show ?thesis
    by (simp add: transform_domain_ieee_def Let_def)
qed

text \<open>
  Claim C8. With the domain \<open>(0, 1)\<close> the mapper returns its input vector unchanged, for
  real and for complex buffers alike (in exact arithmetic the map is the identity; the
  machine result differs from it by the rounding of \<open>v * 1 + 0\<close> at most).
\<close>

theorem transform_domain_unit_identity:
  "transform_domain vals 0 1 = vals"
  by (simp add: transform_domain_def)

text \<open>
  So it is in machine arithmetic, fused or not, on a buffer of numbers of the format:
  \<open>v * 1 + 0\<close> is computed without rounding.
\<close>

lemma transform_domain_ieee_unit:
  assumes fmt: "fmt = binary32 \<or> fmt = binary64"
    and rep: "\<forall>v \<in> set vals. ieee_round fmt v = v \<and> in_range fmt v"
  shows "transform_domain_ieee fmt fused vals 0 1 = Some vals"
proof (rule transform_domain_ieee_eval [where D = 1 and d = 1 and l = 0])
  have p: "0 < sig_bits fmt" "min_exp fmt \<le> 0"
    using fmt by (auto simp: binary32_def binary64_def)
  show "ieee_round binary64 (1 - 0) = 1"
    by (simp add: ieee_round_one binary64_def)
  show "ieee_round fmt 1 = 1"
    using p by (rule ieee_round_one)
  show "ieee_round fmt 0 = 0"
    by (rule ieee_round_zero)
  show "in_range binary64 1" "in_range fmt 1" "in_range fmt 0"
    using fmt by (simp_all add: small_in_range)
  show "list_all2 (\<lambda>v y. in_range fmt (ieee_round fmt (v * 1))
                 \<and> ieee_round fmt (ieee_round fmt (v * 1) + 0) = y
                 \<and> ieee_round fmt (v * 1 + 0) = y \<and> in_range fmt y) vals vals"
    unfolding list_all2_same using rep by simp
qed


section \<open>Properties of the adapter loops\<close>

lemma upt_append_upt: "a \<le> b \<Longrightarrow> b \<le> c \<Longrightarrow> [a..<b] @ [b..<c] = [a..<c]"
  by (metis le_Suc_ex upt_add_eq_append)



lemma lane_loop_run:
  assumes W: "0 < W" and lanes: "\<forall>x. length x = W \<longrightarrow> length (f x) = W"
    and lv: "length vals = q * W"
  shows "k \<le> q \<Longrightarrow> length (out m) = q * W \<Longrightarrow>
     lane_loop W f vals (q * W) (k * W) m =
       Some (Inr \<lparr>out = take (k * W) (out m) @ concat (map (\<lambda>j. f (take W (drop (j * W) vals))) [k..<q]),
                  reads = reads m @ [k * W..<q * W], writes = writes m @ [k * W..<q * W]\<rparr>)"
proof (induction "q - k" arbitrary: k m)
  case 0
  then have "k = q" by simp
  then show ?case using 0 by (subst lane_loop.simps) simp
next
  case (Suc d)
  then have lt: "k < q" by simp
  then have ltW: "k * W < q * W" using W by simp
  have le: "k * W + W \<le> q * W"
  proof -
    have "Suc k * W \<le> q * W" using lt by (intro mult_le_mono1) simp
    then show ?thesis by (simp add: ac_simps)
  qed
  let ?x = "take W (drop (k * W) vals)"
  have lx: "length ?x = W" using le lv by simp
  then have lfx: "length (f ?x) = W" using lanes by blast
  let ?buf = "take (k * W) (out m) @ f ?x @ drop (k * W + W) (out m)"
  let ?m = "m\<lparr>out := ?buf, reads := reads m @ [k * W..<k * W + W],
               writes := writes m @ [k * W..<k * W + W]\<rparr>"
  have ld: "load_a vals (k * W) W = Inr ?x" using le lv by (simp add: load_a_def)
  have st: "store_a (out m) (k * W) (f ?x) = Inr ?buf"
    using le lfx Suc.prems by (simp add: store_a_def)
  have step: "lane_loop W f vals (q * W) (k * W) m = lane_loop W f vals (q * W) (Suc k * W) ?m"
    using ltW ld st lfx by (subst lane_loop.simps) (simp add: ac_simps)
  have d: "d = q - Suc k" using Suc.hyps(2) by simp
  have lbuf: "length (out ?m) = q * W" using le lfx Suc.prems by simp
  have ih: "lane_loop W f vals (q * W) (Suc k * W) ?m =
       Some (Inr \<lparr>out = take (Suc k * W) (out ?m) @ concat (map (\<lambda>j. f (take W (drop (j * W) vals))) [Suc k..<q]),
                  reads = reads ?m @ [Suc k * W..<q * W], writes = writes ?m @ [Suc k * W..<q * W]\<rparr>)"
    using Suc.hyps(1)[OF d _ lbuf] lt by simp
  have a: "take (Suc k * W) (out ?m) = take (k * W) (out m) @ f ?x"
    using le lfx Suc.prems by (simp add: ac_simps)
  have c: "[k..<q] = k # [Suc k..<q]" using lt by (simp add: upt_conv_Cons)
  have r: "[k * W..<k * W + W] @ [Suc k * W..<q * W] = [k * W..<q * W]"
  proof -
    have e: "Suc k * W = k * W + W" by simp
    show ?thesis unfolding e using le by (intro upt_append_upt) simp_all
  qed
  show ?case unfolding step ih using a c r by simp
qed

lemma pair_loop_run:
  "i \<le> length vals \<Longrightarrow> length (out m) = 2 * length vals \<Longrightarrow>
     pair_loop f vals i m =
       Inr \<lparr>out = take (2 * i) (out m) @ concat (map (\<lambda>v. [fst (f v), snd (f v)]) (drop i vals)),
            reads = reads m @ [i..<length vals], writes = writes m @ [2 * i..<2 * length vals]\<rparr>"
proof (induction "length vals - i" arbitrary: i m)
  case 0
  then show ?case by (subst pair_loop.simps) simp
next
  case (Suc d)
  then have lt: "i < length vals" by simp
  let ?m = "m\<lparr>out := (out m)[i * 2 := fst (f (vals ! i)), i * 2 + 1 := snd (f (vals ! i))],
               reads := reads m @ [i], writes := writes m @ [i * 2, i * 2 + 1]\<rparr>"
  have step: "pair_loop f vals i m = pair_loop f vals (Suc i) ?m"
    using lt Suc.prems by (subst pair_loop.simps) simp
  have d: "d = length vals - Suc i" using Suc.hyps(2) by simp
  have ih: "pair_loop f vals (Suc i) ?m =
       Inr \<lparr>out = take (2 * Suc i) (out ?m) @ concat (map (\<lambda>v. [fst (f v), snd (f v)]) (drop (Suc i) vals)),
            reads = reads ?m @ [Suc i..<length vals], writes = writes ?m @ [2 * Suc i..<2 * length vals]\<rparr>"
    using Suc.hyps(1)[OF d, of ?m] lt Suc.prems by simp
  have a: "take (2 * Suc i) (out ?m) = take (2 * i) (out m) @ [fst (f (vals ! i)), snd (f (vals ! i))]"
  proof -
    have l: "Suc (2 * i) < length (out m)" using lt Suc.prems by simp
    have "take (Suc (Suc (2 * i))) ((out m)[2 * i := fst (f (vals ! i)), Suc (2 * i) := snd (f (vals ! i))])
        = take (2 * i) (out m) @ [fst (f (vals ! i)), snd (f (vals ! i))]"
      using l by (simp add: take_Suc_conv_app_nth)
    then show ?thesis by (simp add: ac_simps)
  qed
  have b: "drop i vals = vals ! i # drop (Suc i) vals" using lt by (simp add: Cons_nth_drop_Suc)
  have c: "[i..<length vals] = i # [Suc i..<length vals]" using lt by (simp add: upt_conv_Cons)
  have w: "[2 * i..<2 * length vals] = 2 * i # Suc (2 * i) # [2 * Suc i..<2 * length vals]"
    using lt by (simp add: upt_conv_Cons)
  show ?case unfolding step ih using a b c w by (simp add: ac_simps)
qed

lemma lane_registers_length:
  assumes lanes: "\<forall>x. length x = W \<longrightarrow> length (f x) = W" and lv: "length vals = q * W"
  shows "k \<le> q \<Longrightarrow> length (concat (map (\<lambda>j. f (take W (drop (j * W) vals))) [0..<k])) = k * W"
proof (induction k)
  case 0
  then show ?case by simp
next
  case (Suc k)
  then have "k * W + W \<le> q * W"
    by (metis Suc_leD mult_Suc mult_le_mono1 add.commute)
  then have "length (take W (drop (k * W) vals)) = W" using lv by simp
  then have "length (f (take W (drop (k * W) vals))) = W" using lanes by blast
  then show ?case using Suc by simp
qed

lemma vec_func_apply_full:
  assumes W: "0 < W" and dv: "W dvd n"
    and lanes: "\<forall>x. length x = W \<longrightarrow> length (f x) = W"
    and lv: "length vals = n" and lr: "length resbuf = n"
  shows "vec_func_apply W f vals resbuf n =
           Some (Inr \<lparr>out = concat (map (\<lambda>j. f (take W (drop (j * W) vals))) [0..<n div W]),
                      reads = [0..<n], writes = [0..<n]\<rparr>)"
    and "length (concat (map (\<lambda>j. f (take W (drop (j * W) vals))) [0..<n div W])) = n"
proof -
  obtain q where q: "n = q * W" using dv by (auto simp: dvd_def ac_simps)
  have run: "lane_loop W f vals (q * W) (0 * W) (fresh resbuf) =
       Some (Inr \<lparr>out = take (0 * W) (out (fresh resbuf)) @
                        concat (map (\<lambda>j. f (take W (drop (j * W) vals))) [0..<q]),
                  reads = reads (fresh resbuf) @ [0 * W..<q * W],
                  writes = writes (fresh resbuf) @ [0 * W..<q * W]\<rparr>)"
    using lv lr q by (intro lane_loop_run [OF W lanes]) (simp_all add: fresh_def)
  show "vec_func_apply W f vals resbuf n =
           Some (Inr \<lparr>out = concat (map (\<lambda>j. f (take W (drop (j * W) vals))) [0..<n div W]),
                      reads = [0..<n], writes = [0..<n]\<rparr>)"
    using run W by (simp add: vec_func_apply_def q fresh_def)
  show "length (concat (map (\<lambda>j. f (take W (drop (j * W) vals))) [0..<n div W])) = n"
    using lane_registers_length [OF lanes, of vals q q] lv W by (simp add: q)
qed

lemma sctl_apply_eq: "sctl_apply W f = vec_func_apply W f"
  by (simp add: sctl_apply_def vec_func_apply_def)

text \<open>
  When the lane width does not divide the size, the last register reaches past the end
  of the buffers: six coefficients, four lanes.
\<close>

lemma lane_width_not_dividing_faults:
  "vec_func_apply 4 rev [1, 2, 3, 4, 5, 6 :: int] [0, 0, 0, 0, 0, 0] 6 = Some (Inl OutOfBounds)"
  unfolding vec_func_apply_def
  by (subst lane_loop.simps, simp add: load_a_def store_a_def fresh_def,
      subst lane_loop.simps, simp add: load_a_def)

text \<open>
  Claim C9. For a batched vector adapter of lane width \<open>W\<close> (\<^verbatim>\<open>vec_func_apply\<close> and
  \<^verbatim>\<open>sctl_apply\<close>) and buffers of size \<open>n\<close> with \<open>W\<close> dividing \<open>n\<close>, one evaluation returns
  without a fault, it reads the input indices \<open>0, ..., n - 1\<close> and writes the output
  indices \<open>0, ..., n - 1\<close>, each once and in order, so every index it touches is below
  \<open>n\<close>, and the output buffer, still of size \<open>n\<close>, holds the \<open>n div W\<close> result registers one
  after the other.
\<close>

theorem lane_adapters_stay_in_bounds:
  assumes W: "0 < W" and dv: "W dvd n"
    and lanes: "\<forall>x. length x = W \<longrightarrow> length (f x) = W"
    and lv: "length vals = n" and lr: "length resbuf = n"
  shows "\<exists>m. vec_func_apply W f vals resbuf n = Some (Inr m)
           \<and> sctl_apply W f vals resbuf n = Some (Inr m)
           \<and> reads m = [0..<n] \<and> writes m = [0..<n]
           \<and> (\<forall>i \<in> set (reads m) \<union> set (writes m). i < n)
           \<and> length (out m) = n
           \<and> out m = concat (map (\<lambda>j. f (take W (drop (j * W) vals))) [0..<n div W])"
proof -
  let ?m = "\<lparr>out = concat (map (\<lambda>j. f (take W (drop (j * W) vals))) [0..<n div W]),
             reads = [0..<n], writes = [0..<n]\<rparr>"
  have a: "vec_func_apply W f vals resbuf n = Some (Inr ?m)"
    using assms by (rule vec_func_apply_full(1))
  have b: "length (out ?m) = n"
    using vec_func_apply_full(2) [OF assms] by simp
  have c: "\<forall>i \<in> set (reads ?m) \<union> set (writes ?m). i < n" by simp
  show ?thesis
    using a b c by (intro exI [of _ ?m]) (simp add: sctl_apply_eq)
qed

theorem lane_adapters_stay_in_bounds_witness:
  "vec_func_apply 2 rev [1, 2, 3, 4 :: int] [0, 0, 0, 0] 4 =
     Some (Inr \<lparr>out = [2, 1, 4, 3], reads = [0, 1, 2, 3], writes = [0, 1, 2, 3]\<rparr>)
   \<and> sctl_apply 2 rev [1, 2, 3, 4 :: int] [0, 0, 0, 0] 4 =
     Some (Inr \<lparr>out = [2, 1, 4, 3], reads = [0, 1, 2, 3], writes = [0, 1, 2, 3]\<rparr>)"
proof -
  have h1: "(0::nat) < 2" by simp
  have h2: "(2::nat) dvd 4" by simp
  have h3: "\<forall>x :: int list. length x = 2 \<longrightarrow> length (rev x) = 2" by simp
  have h4: "length [1, 2, 3, 4 :: int] = 4" by simp
  have h5: "length [0, 0, 0, 0 :: int] = 4" by simp
  have u: "[0..<4] = [0, 1, 2, 3]" "[0..<2] = [0, 1]" by (simp_all add: upt_rec)
  from lane_adapters_stay_in_bounds [OF h1 h2 h3 h4 h5]
  obtain m where m: "vec_func_apply 2 rev [1, 2, 3, 4 :: int] [0, 0, 0, 0] 4 = Some (Inr m)"
      "sctl_apply 2 rev [1, 2, 3, 4 :: int] [0, 0, 0, 0] 4 = Some (Inr m)"
      "reads m = [0..<4]" "writes m = [0..<4]"
      "out m = concat (map (\<lambda>j. rev (take 2 (drop (j * 2) [1, 2, 3, 4]))) [0..<4 div 2])"
    by blast
  have "m = \<lparr>out = [2, 1, 4, 3], reads = [0, 1, 2, 3], writes = [0, 1, 2, 3]\<rparr>"
    using m(3-5) by (simp add: u)
  with m(1,2) show ?thesis by simp
qed

section \<open>Properties of the benchmark and of the reporter\<close>


lemma pair_loop_length:
  "pair_loop f vals i m = Inr m' \<Longrightarrow> length (out m') = length (out m)"
proof (induction f vals i m rule: pair_loop.induct)
  case (1 f vals i m)
  show ?case
  proof (cases "i < length vals")
    case True
    with "1.prems" have ok: "i * 2 + 1 < length (out m)"
      by (subst (asm) pair_loop.simps) (simp split: if_splits)
    with True "1.prems" have
      "pair_loop f vals (Suc i)
         (m\<lparr>out := (out m)[i * 2 := fst (f (vals ! i)), i * 2 + 1 := snd (f (vals ! i))],
            reads := reads m @ [i], writes := writes m @ [i * 2, i * 2 + 1]\<rparr>) = Inr m'"
      by (subst (asm) pair_loop.simps) simp
    from "1.IH" [OF True ok this] show ?thesis by simp
  next
    case False
    with "1.prems" show ?thesis by (subst (asm) pair_loop.simps) simp
  qed
qed

lemma store_a_length: "store_a resbuf i y = Inr buf \<Longrightarrow> length buf = length resbuf"
  by (auto simp: store_a_def split: if_splits)

lemma lane_loop_length_aux:
  assumes "lane_loop W f vals N i m = Some r"
  shows "\<forall>m'. r = Inr m' \<longrightarrow> length (out m') = length (out m)"
  apply (rule lane_loop.raw_induct
      [where P = "\<lambda>W f vals N i m r. \<forall>m'. r = Inr m' \<longrightarrow> length (out m') = length (out m)",
        OF _ assms])
  subgoal premises prems for lp W f vals N i m r
  proof (cases "i < N")
    case False
    with prems(2) show ?thesis by auto
  next
    case True
    show ?thesis
    proof (cases "load_a vals i W")
      case (Inl e)
      with True prems(2) show ?thesis by auto
    next
      case (Inr x)
      show ?thesis
      proof (cases "store_a (out m) i (f x)")
        case (Inl e)
        with True Inr prems(2) show ?thesis by auto
      next
        case st: (Inr buf)
        with True Inr prems(2) have
          "lp W f vals N (i + W)
             (m\<lparr>out := buf, reads := reads m @ [i..<i + W],
                writes := writes m @ [i..<i + length (f x)]\<rparr>) = Some r" by simp
        from prems(1) [OF this] store_a_length [OF st] show ?thesis by simp
      qed
    qed
  qed
  done

lemma lane_loop_length:
  "lane_loop W f vals N i m = Some (Inr m') \<Longrightarrow> length (out m') = length (out m)"
  using lane_loop_length_aux by blast


lemma vec_func_apply_keeps_size: "keeps_size (vec_func_apply W g)"
  by (auto simp: keeps_size_def vec_func_apply_def fresh_def dest: lane_loop_length)

lemma sctl_apply_keeps_size: "keeps_size (sctl_apply W g)"
  by (auto simp: keeps_size_def sctl_apply_def fresh_def dest: lane_loop_length)



lemma vec_func_apply_pure:
  assumes "0 < W" "W dvd length vals" "\<forall>x. length x = W \<longrightarrow> length (f x) = W"
  shows "pure_on (vec_func_apply W f) vals" and "pure_on (sctl_apply W f) vals"
  using assms by (simp_all add: pure_on_def sctl_apply_eq vec_func_apply_full(1))

lemma eval_once_pair:
  "length resptr = 2 * length vals \<Longrightarrow>
     eval_once (Fun_cdx1_x2 g) vals resptr =
       Some (Inr (concat (map (\<lambda>v. [fst (g v), snd (g v)]) vals)))"
  using pair_loop_run [of 0 vals "fresh resptr" g]
  by (simp add: eval_once_def fresh_def)

lemma repeat_loop_once:
  assumes stable: "\<And>b y. length b = L \<Longrightarrow> eval_once f vals b = Some (Inr y) \<Longrightarrow> length y = L"
    and indep: "\<And>b1 b2. length b1 = L \<Longrightarrow> length b2 = L \<Longrightarrow> eval_once f vals b1 = eval_once f vals b2"
  shows "length buf = L \<Longrightarrow> repeat_loop (Suc k) f vals buf = eval_once f vals buf"
proof (induction k arbitrary: buf)
  case 0
  then show ?case by (simp split: option.splits sum.splits)
next
  case (Suc k)
  show ?case
  proof (cases "eval_once f vals buf")
    case None
    then show ?thesis by simp
  next
    case (Some r)
    show ?thesis
    proof (cases r)
      case (Inl e)
      with Some show ?thesis by simp
    next
      case (Inr y)
      with Some have ly: "length y = L" using stable Suc.prems by blast
      have "repeat_loop (Suc (Suc k)) f vals buf = repeat_loop (Suc k) f vals y"
        using Some Inr by simp
      also have "\<dots> = eval_once f vals y" using Suc.IH [OF ly] .
      also have "\<dots> = eval_once f vals buf" using indep [OF ly Suc.prems] .
      finally show ?thesis .
    qed
  qed
qed

lemma eval_once_multi:
  "eval_once (Multi_eval h) vals b = map_option (map_sum id out) (h vals b (length vals))"
  "eval_once (Baobzi_ptr h) vals b = map_option (map_sum id out) (h vals b (length vals))"
  by (simp_all add: eval_once_def)

lemma outcome_Inr:
  "map_option (map_sum id out) r = Some (Inr y) \<longleftrightarrow> (\<exists>m. r = Some (Inr m) \<and> out m = y)"
proof (cases r)
  case None
  then show ?thesis by simp
next
  case (Some s)
  then show ?thesis by (cases s) auto
qed

lemma eval_once_keeps_size:
  assumes "\<forall>h. f = Multi_eval h \<or> f = Baobzi_ptr h \<longrightarrow> keeps_size h"
    and "eval_once f vals b = Some (Inr y)"
  shows "length y = length b"
proof (cases f)
  case (Fun_cdx1_x2 g)
  with assms(2) show ?thesis
    by (cases "pair_loop g vals 0 (fresh b)")
       (auto simp: eval_once_def fresh_def dest: pair_loop_length)
next
  case (Baobzi_ptr h)
  with assms have k: "keeps_size h" by simp
  have "map_option (map_sum id out) (h vals b (length vals)) = Some (Inr y)"
    using assms(2) Baobzi_ptr by (simp add: eval_once_multi)
  then obtain m where "h vals b (length vals) = Some (Inr m)" "out m = y"
    using outcome_Inr [THEN iffD1] by blast
  with k show ?thesis by (auto simp: keeps_size_def)
next
  case (Multi_eval h)
  with assms have k: "keeps_size h" by simp
  have "map_option (map_sum id out) (h vals b (length vals)) = Some (Inr y)"
    using assms(2) Multi_eval by (simp add: eval_once_multi)
  then obtain m where "h vals b (length vals) = Some (Inr m)" "out m = y"
    using outcome_Inr [THEN iffD1] by blast
  with k show ?thesis by (auto simp: keeps_size_def)
qed

lemma repeat_loop_keeps_size:
  assumes "\<forall>h. f = Multi_eval h \<or> f = Baobzi_ptr h \<longrightarrow> keeps_size h"
  shows "repeat_loop R f vals b = Some (Inr y) \<Longrightarrow> length y = length b"
proof (induction R arbitrary: b)
  case 0
  then show ?case by simp
next
  case (Suc R)
  then obtain b' where e: "eval_once f vals b = Some (Inr b')" and r: "repeat_loop R f vals b' = Some (Inr y)"
    by (auto split: option.splits sum.splits)
  from Suc.IH [OF r] eval_once_keeps_size [OF assms e] show ?case by simp
qed

lemma test_func_Some:
  "funs name = Some f \<Longrightarrow>
     test_func M name library_prefix funs params' vals_in Nrepeat =
       (case repeat_loop Nrepeat f (mapped_inputs params' name vals_in)
               (map (stale_coeff M)
                  [0..<(case f of Fun_cdx1_x2 g \<Rightarrow> length vals_in * 2 | _ \<Rightarrow> length vals_in)]) of
          None \<Rightarrow> None
        | Some (Inl e) \<Rightarrow> Some (Inl e)
        | Some (Inr buf) \<Rightarrow>
            Some (Inr \<lparr>res = buf, eval_time = get_wtime_diff (clock_start M) (clock_stop M),
                       label = library_prefix @ ''_'' @ name,
                       n_evals = word_of_nat (length vals_in) * word_of_nat Nrepeat,
                       params = params_at params' name\<rparr>))"
  by (simp add: test_func_def Let_def BenchResult_sized_def mapped_inputs_def transform_domain_length
           split: option.splits sum.splits FUN_T.splits)

lemma mapped_inputs_length: "length (mapped_inputs params' name vals_in) = length vals_in"
  by (simp add: mapped_inputs_def Let_def transform_domain_length)



lemma operator_shl_empty:
  "res br = [] \<Longrightarrow> operator_shl show_double show_val os br = os"
  by (simp add: operator_shl_def)


lemma test_func_None:
  "funs name = None \<Longrightarrow>
     test_func M name library_prefix funs params' vals_in Nrepeat =
       Some (Inr (BenchResult_label M (library_prefix @ ''_'' @ name)))"
  by (simp add: test_func_def)

lemma ops_loop_once: "ops_loop (Suc k) coeff OP x buf = map (coeff OP) x"
  by (induction k arbitrary: buf) simp_all

lemma eval_once_stable:
  assumes pure: "\<forall>h. f = Multi_eval h \<or> f = Baobzi_ptr h \<longrightarrow> pure_on h vals \<and> keeps_size h"
    and l1: "length b1 = (case f of Fun_cdx1_x2 g \<Rightarrow> length vals * 2 | _ \<Rightarrow> length vals)"
    and l2: "length b2 = (case f of Fun_cdx1_x2 g \<Rightarrow> length vals * 2 | _ \<Rightarrow> length vals)"
  shows "eval_once f vals b1 = eval_once f vals b2"
proof (cases f)
  case (Fun_cdx1_x2 g)
  with l1 l2 have "length b1 = 2 * length vals" "length b2 = 2 * length vals" by simp_all
  then show ?thesis unfolding Fun_cdx1_x2 by (simp only: eval_once_pair)
next
  case (Baobzi_ptr h)
  with l1 l2 have l: "length b1 = length vals" "length b2 = length vals" by simp_all
  from Baobzi_ptr have "pure_on h vals" using pure by simp
  with l show ?thesis
    unfolding Baobzi_ptr eval_once_multi pure_on_def by blast
next
  case (Multi_eval h)
  with l1 l2 have l: "length b1 = length vals" "length b2 = length vals" by simp_all
  from Multi_eval have "pure_on h vals" using pure by simp
  with l show ?thesis
    unfolding Multi_eval eval_once_multi pure_on_def by blast
qed

lemma repeat_loop_pure:
  assumes pure: "\<forall>h. f = Multi_eval h \<or> f = Baobzi_ptr h \<longrightarrow> pure_on h vals \<and> keeps_size h"
    and L: "length buf = (case f of Fun_cdx1_x2 g \<Rightarrow> length vals * 2 | _ \<Rightarrow> length vals)"
    and R: "1 \<le> R"
  shows "repeat_loop R f vals buf = eval_once f vals buf"
proof -
  obtain k where k: "R = Suc k" using R by (cases R) simp_all
  have ks: "\<forall>h. f = Multi_eval h \<or> f = Baobzi_ptr h \<longrightarrow> keeps_size h" using pure by blast
  show ?thesis unfolding k
  proof (rule repeat_loop_once [where L = "length buf"], goal_cases)
    case (1 b y)
    then show ?case using eval_once_keeps_size [OF ks, of vals b y] by simp
  next
    case (2 b1 b2)
    show ?case
    proof (rule eval_once_stable [OF pure])
      show "length b1 = (case f of Fun_cdx1_x2 g \<Rightarrow> length vals * 2 | _ \<Rightarrow> length vals)"
        using 2(1) L by (rule trans)
      show "length b2 = (case f of Fun_cdx1_x2 g \<Rightarrow> length vals * 2 | _ \<Rightarrow> length vals)"
        using 2(2) L by (rule trans)
    qed
  next
    case 3
    show ?case by (rule refl)
  qed
qed


text \<open>
  Claim C3. When the name is not a key of the backend's registry, \<^verbatim>\<open>test_func\<close> returns
  (it neither faults nor diverges) the label-only result, whose output vector has size
  0, and the reporter leaves the stream as it found it: it writes no character. The
  same holds for the Eigen overload.
\<close>

theorem missing_adapter_empty_and_silent:
  fixes M :: "'a::real_normed_field machine"
  assumes "funs name = None"
  shows "test_func M name library_prefix funs params' vals_in Nrepeat =
           Some (Inr (BenchResult_label M (library_prefix @ ''_'' @ name)))
       \<and> length (res (BenchResult_label M (library_prefix @ ''_'' @ name))) = 0
       \<and> operator_shl show_double show_val os (BenchResult_label M (library_prefix @ ''_'' @ name)) = os
       \<and> (ops name = None \<longrightarrow>
            test_func_ops coeff M name library_prefix ops params' vals_in Nrepeat =
              BenchResult_label M (library_prefix @ ''_'' @ name))"
proof -
  have e: "res (BenchResult_label M (library_prefix @ ''_'' @ name)) = []"
    by (simp add: BenchResult_label_def)
  have p: "operator_shl show_double show_val os (BenchResult_label M (library_prefix @ ''_'' @ name)) = os"
    using e by (rule operator_shl_empty)
  have o: "ops name = None \<longrightarrow>
            test_func_ops coeff M name library_prefix ops params' vals_in Nrepeat =
              BenchResult_label M (library_prefix @ ''_'' @ name)"
    by (simp add: test_func_ops_def)
  show ?thesis using test_func_None [where funs = funs and name = name, OF assms] e p o by simp
qed

theorem missing_adapter_empty_and_silent_witness:
  "test_func \<lparr>clock_start = \<lparr>tv_sec = 7, tv_nsec = 100\<rparr>, clock_stop = \<lparr>tv_sec = 7, tv_nsec = 900\<rparr>,
              stale_count = 12345, stale_coeff = (\<lambda>i. 0 :: real)\<rparr>
     ''hank103'' ''std_dx1'' [''sqrt'' \<mapsto> Multi_eval (scalar_func_apply sqrt)] Map.empty [1 / 2, 1] 3 =
     Some (Inr \<lparr>res = [], eval_time = 0, label = ''std_dx1_hank103'', n_evals = 12345,
                params = \<lparr>domain = (0, 1)\<rparr>\<rparr>)
   \<and> written (operator_shl (\<lambda>p v. ''?'') (\<lambda>p v. ''?'') \<lparr>written = ''abc'', precision = 6, adjust_left = False\<rparr>
        (BenchResult_label \<lparr>clock_start = \<lparr>tv_sec = 7, tv_nsec = 100\<rparr>, clock_stop = \<lparr>tv_sec = 7, tv_nsec = 900\<rparr>,
              stale_count = 12345, stale_coeff = (\<lambda>i. 0 :: real)\<rparr> ''std_dx1_hank103'')) = ''abc''"
proof -
  have h: "[''sqrt'' \<mapsto> Multi_eval (scalar_func_apply sqrt)] ''hank103'' = None" by simp
  from h missing_adapter_empty_and_silent [where
      funs = "[''sqrt'' \<mapsto> Multi_eval (scalar_func_apply sqrt)]" and name = "''hank103''" and
      M = "\<lparr>clock_start = \<lparr>tv_sec = 7, tv_nsec = 100\<rparr>, clock_stop = \<lparr>tv_sec = 7, tv_nsec = 900\<rparr>,
              stale_count = 12345, stale_coeff = (\<lambda>i. 0 :: real)\<rparr>" and
      library_prefix = "''std_dx1''" and params' = Map.empty and vals_in = "[1 / 2, 1]" and Nrepeat = 3 and
      show_double = "\<lambda>p v. ''?''" and show_val = "\<lambda>p v. ''?''" and
      os = "\<lparr>written = ''abc'', precision = 6, adjust_left = False\<rparr>"]
  show ?thesis by (simp add: BenchResult_label_def Params_default_def)
qed



lemma concat_pairs_nth:
  "i < length xs \<Longrightarrow>
     concat (map (\<lambda>v. [a v, b v]) xs) ! (2 * i) = a (xs ! i)
   \<and> concat (map (\<lambda>v. [a v, b v]) xs) ! (2 * i + 1) = b (xs ! i)"
proof (induction xs arbitrary: i)
  case Nil
  then show ?case by simp
next
  case (Cons x xs)
  show ?case
  proof (cases i)
    case 0
    then show ?thesis by simp
  next
    case (Suc j)
    with Cons.prems have "j < length xs" by simp
    from Cons.IH [OF this] Suc show ?thesis by simp
  qed
qed

lemma length_concat_pairs: "length (concat (map (\<lambda>v. [a v, b v]) xs)) = 2 * length xs"
  by (induction xs) simp_all

lemma repeat_loop_pair:
  assumes "length buf = 2 * length xs"
  shows "repeat_loop R (Fun_cdx1_x2 g) xs buf =
           Some (Inr (if R = 0 then buf else concat (map (\<lambda>v. [fst (g v), snd (g v)]) xs)))"
proof (cases R)
  case 0
  then show ?thesis by simp
next
  case (Suc k)
  have "repeat_loop R (Fun_cdx1_x2 g) xs buf = eval_once (Fun_cdx1_x2 g) xs buf"
    using assms Suc by (intro repeat_loop_pure) simp_all
  then show ?thesis using Suc assms by (simp add: eval_once_pair)
qed






text \<open>
  Claim C5. With a pair-output adapter \<^verbatim>\<open>test_func\<close> returns a result whose output
  vector has exactly twice the size of the input vector, and after at least one pass
  the two results for input \<open>i\<close> stand at the positions \<open>2 * i\<close> and \<open>2 * i + 1\<close>. With any
  other adapter (one that writes into the buffer it is given) and in the Eigen overload
  the output vector has exactly the size of the input vector.
\<close>

theorem output_buffer_sizes:
  fixes M :: "'a::real_algebra_1 machine"
  assumes f: "funs name = Some f"
  shows "(\<forall>g. f = Fun_cdx1_x2 g \<longrightarrow>
            (\<exists>br. test_func M name library_prefix funs params' vals_in Nrepeat = Some (Inr br)
                \<and> length (res br) = 2 * length vals_in
                \<and> (1 \<le> Nrepeat \<longrightarrow>
                     (\<forall>i < length vals_in.
                        res br ! (2 * i) = fst (g (mapped_inputs params' name vals_in ! i))
                      \<and> res br ! (2 * i + 1) = snd (g (mapped_inputs params' name vals_in ! i))))))
       \<and> (\<forall>h br. (f = Multi_eval h \<or> f = Baobzi_ptr h) \<and> keeps_size h
                  \<and> test_func M name library_prefix funs params' vals_in Nrepeat = Some (Inr br)
                \<longrightarrow> length (res br) = length vals_in)
       \<and> (ops name = Some OP \<longrightarrow>
            length (res (test_func_ops coeff M name library_prefix ops params' vals_in Nrepeat)) =
              length vals_in)"
proof -
  let ?vals = "mapped_inputs params' name vals_in"
  note tf = test_func_Some [where funs = funs and name = name, OF f]
  have pair: "\<exists>br. test_func M name library_prefix funs params' vals_in Nrepeat = Some (Inr br)
                \<and> length (res br) = 2 * length vals_in
                \<and> (1 \<le> Nrepeat \<longrightarrow>
                     (\<forall>i < length vals_in.
                        res br ! (2 * i) = fst (g (?vals ! i))
                      \<and> res br ! (2 * i + 1) = snd (g (?vals ! i))))"
    if g: "f = Fun_cdx1_x2 g" for g
  proof -
    let ?buf = "map (stale_coeff M) [0..<length vals_in * 2]"
    have lb: "length ?buf = 2 * length ?vals" by (simp add: mapped_inputs_length)
    let ?out = "if Nrepeat = 0 then ?buf else concat (map (\<lambda>v. [fst (g v), snd (g v)]) ?vals)"
    have run: "repeat_loop Nrepeat (Fun_cdx1_x2 g) ?vals ?buf = Some (Inr ?out)"
      using repeat_loop_pair [OF lb] .
    have lo: "length ?out = 2 * length vals_in"
      by (simp add: length_concat_pairs mapped_inputs_length)
    have nth: "?out ! (2 * i) = fst (g (?vals ! i)) \<and> ?out ! (2 * i + 1) = snd (g (?vals ! i))"
      if "1 \<le> Nrepeat" "i < length vals_in" for i
      using that concat_pairs_nth [of i ?vals "\<lambda>v. fst (g v)" "\<lambda>v. snd (g v)"]
      by (simp add: mapped_inputs_length)
    show ?thesis
      unfolding tf g using run lo nth by (simp del: repeat_loop.simps)
  qed
  have multi: "length (res br) = length vals_in"
    if h: "f = Multi_eval h \<or> f = Baobzi_ptr h" and ks: "keeps_size h"
      and run: "test_func M name library_prefix funs params' vals_in Nrepeat = Some (Inr br)"
    for h br
  proof -
    let ?buf = "map (stale_coeff M) [0..<length vals_in]"
    have sz: "\<forall>h'. f = Multi_eval h' \<or> f = Baobzi_ptr h' \<longrightarrow> keeps_size h'"
      using h ks by auto
    from run h obtain buf where r: "repeat_loop Nrepeat f ?vals ?buf = Some (Inr buf)"
      and b: "res br = buf"
      unfolding tf by (auto split: option.splits sum.splits)
    from repeat_loop_keeps_size [OF sz r] b show ?thesis by simp
  qed
  have eig: "ops name = Some OP \<longrightarrow>
            length (res (test_func_ops coeff M name library_prefix ops params' vals_in Nrepeat)) =
              length vals_in"
  proof (cases Nrepeat)
    case 0
    then show ?thesis
      by (simp add: test_func_ops_def Let_def BenchResult_sized_def mapped_inputs_length)
  next
    case (Suc k)
    then show ?thesis
      by (simp add: test_func_ops_def Let_def BenchResult_sized_def mapped_inputs_length
            ops_loop_once del: ops_loop.simps)
  qed
  show ?thesis using pair multi eig by blast
qed


theorem output_buffer_sizes_witness:
  "\<exists>br. test_func \<lparr>clock_start = \<lparr>tv_sec = 7, tv_nsec = 100\<rparr>, clock_stop = \<lparr>tv_sec = 7, tv_nsec = 900\<rparr>,
                     stale_count = 0, stale_coeff = (\<lambda>i. 99 :: real)\<rparr>
            ''hank103'' ''hank10x_dx1'' [''hank103'' \<mapsto> Fun_cdx1_x2 (\<lambda>z. (z + 1, z * 2))] Map.empty
            [1 / 2, 1] 2 = Some (Inr br)
      \<and> length (res br) = 4
      \<and> res br ! 0 = 3 / 2 \<and> res br ! 1 = 1 \<and> res br ! 2 = 2 \<and> res br ! 3 = 2"
proof -
  let ?M = "\<lparr>clock_start = \<lparr>tv_sec = 7, tv_nsec = 100\<rparr>, clock_stop = \<lparr>tv_sec = 7, tv_nsec = 900\<rparr>,
             stale_count = 0, stale_coeff = (\<lambda>i. 99 :: real)\<rparr>"
  let ?g = "\<lambda>z :: real. (z + 1, z * 2)"
  let ?funs = "[''hank103'' \<mapsto> Fun_cdx1_x2 ?g]"
  have h: "?funs ''hank103'' = Some (Fun_cdx1_x2 ?g)" by simp
  have m: "mapped_inputs Map.empty ''hank103'' [1 / 2, 1 :: real] = [1 / 2, 1]"
    by (simp add: mapped_inputs_def params_at_def Params_default_def transform_domain_def)
  from output_buffer_sizes [where funs = ?funs and name = "''hank103''" and M = ?M
      and library_prefix = "''hank10x_dx1''" and params' = Map.empty and vals_in = "[1 / 2, 1]"
      and Nrepeat = 2, OF h, THEN conjunct1, rule_format, OF refl]
  obtain br where run: "test_func ?M ''hank103'' ''hank10x_dx1'' ?funs Map.empty [1 / 2, 1] 2 = Some (Inr br)"
    and len: "length (res br) = 2 * length [1 / 2, 1 :: real]"
    and nth: "(1::nat) \<le> 2 \<longrightarrow> (\<forall>i < length [1 / 2, 1 :: real].
                res br ! (2 * i) = fst (?g (mapped_inputs Map.empty ''hank103'' [1 / 2, 1] ! i))
              \<and> res br ! (2 * i + 1) = snd (?g (mapped_inputs Map.empty ''hank103'' [1 / 2, 1] ! i)))"
    by blast
  from nth have n0: "res br ! (2 * 0) = 3 / 2 \<and> res br ! (2 * 0 + 1) = 1"
    unfolding m by (elim impE allE [of _ 0]) simp_all
  from nth have n1: "res br ! (2 * 1) = 2 \<and> res br ! (2 * 1 + 1) = 2"
    unfolding m by (elim impE allE [of _ 1]) simp_all
  show ?thesis using run len n0 n1 by (intro exI [of _ br]) simp
qed






section \<open>Properties of the driver\<close>

lemma set_insert_set: "set (set_insert x xs) = insert x (set xs)"
  by (induction xs) auto

lemma set_insert_sorted: "sorted_wrt (<) xs \<Longrightarrow> sorted_wrt (<) (set_insert x xs)"
  by (induction xs) (auto simp: set_insert_set)

lemma foldl_set_insert:
  "set (foldl (\<lambda>s k. set_insert k s) s ks) = set s \<union> set ks"
  by (induction ks arbitrary: s) (auto simp: set_insert_set)

lemma foldl_set_insert_sorted:
  "sorted_wrt (<) s \<Longrightarrow> sorted_wrt (<) (foldl (\<lambda>s k. set_insert k s) s ks)"
  by (induction ks arbitrary: s) (auto simp: set_insert_sorted)

lemma set_intersection_set:
  "sorted_wrt (<) xs \<Longrightarrow> sorted_wrt (<) ys \<Longrightarrow>
     set (set_intersection xs ys) = set xs \<inter> set ys"
proof (induction xs ys rule: set_intersection.induct)
  case (1 ys)
  then show ?case by simp
next
  case (2 x xs)
  then show ?case by simp
next
  case (3 x xs y ys)
  then show ?case by (auto simp: not_less)
qed

lemma parse_args_set: "set (parse_args argv) = set argv"
  by (simp add: parse_args_def foldl_set_insert)

lemma parse_args_sorted: "sorted_wrt (<) (parse_args argv)"
  by (simp add: parse_args_def foldl_set_insert_sorted)

lemma insert_keys_set: "set (insert_keys s registry) = set s \<union> set registry"
  by (simp add: insert_keys_def foldl_set_insert)

lemma insert_keys_sorted: "sorted_wrt (<) s \<Longrightarrow> sorted_wrt (<) (insert_keys s registry)"
  by (simp add: insert_keys_def foldl_set_insert_sorted)

lemma foldl_insert_keys_set:
  "set (foldl insert_keys s rs) = set s \<union> \<Union> (set ` set rs)"
  by (induction rs arbitrary: s) (auto simp: insert_keys_set)

lemma foldl_insert_keys_sorted:
  "sorted_wrt (<) s \<Longrightarrow> sorted_wrt (<) (foldl insert_keys s rs)"
  by (induction rs arbitrary: s) (auto simp: insert_keys_sorted)

lemma fun_union_sorted: "sorted_wrt (<) (fun_union avx512f)"
  unfolding fun_union_def by (rule foldl_insert_keys_sorted) simp

lemma fun_union_set:
  "set (fun_union avx512f) =
     set amdlibm_funs_fx1 \<union> set amdlibm_funs_dx1 \<union> set boost_funs_fx1 \<union> set boost_funs_dx1
     \<union> set eigen_funs \<union> set fort_funs \<union> set gsl_funs \<union> set gsl_complex_funs \<union> set hank10x_funs
     \<union> set sleef_funs_fx1 \<union> set sleef_funs_dx1 \<union> set std_funs_fx1 \<union> set std_funs_dx1
     \<union> set af_funs_dx4 \<union> set amdlibm_funs_dx4 \<union> set amdlibm_funs_fx8 \<union> set sctl_funs_dx4
     \<union> set sleef_funs_dx4 \<union> set sleef_funs_fx8
     \<union> (if avx512f then set af_funs_dx8 \<union> set sctl_funs_dx8 \<union> set sleef_funs_dx8 \<union> set sleef_funs_fx16
         else {})"
  unfolding fun_union_def foldl_insert_keys_set by (cases avx512f) auto

lemma keys_to_eval_set:
  "set (keys_to_eval avx512f argv) =
     (if argv = [] then set (fun_union avx512f) else set (fun_union avx512f) \<inter> set argv)"
proof (cases argv)
  case Nil
  then show ?thesis by (simp add: keys_to_eval_def parse_args_def)
next
  case (Cons a as)
  then have "set (parse_args argv) \<noteq> {}" by (simp add: parse_args_set)
  then have ne: "0 < length (parse_args argv)" by auto
  show ?thesis using Cons ne
    by (simp add: keys_to_eval_def Let_def foldl_set_insert
          set_intersection_set [OF fun_union_sorted parse_args_sorted] parse_args_set)
qed

lemma same_keys:
  "af_funs_fx8 = af_funs_dx4" "sctl_funs_fx8 = sctl_funs_dx4"
  "af_funs_fx16 = af_funs_dx8" "sctl_funs_fx16 = sctl_funs_dx8"
  by (simp_all add: af_funs_fx8_def af_funs_dx4_def sctl_funs_fx8_def sctl_funs_dx4_def
        af_funs_fx16_def af_funs_dx8_def sctl_funs_fx16_def sctl_funs_dx8_def)

lemma probes_registries:
  "(\<Union>p \<in> set (probes avx512f keys). set (fst (snd p))) =
     set (fun_union avx512f) \<union> set (baobzi_funs keys)"
  unfolding fun_union_set
  by (cases avx512f) (auto simp: probes_def same_keys)

lemma baobzi_funs_subset: "set (baobzi_funs keys) \<subseteq> set keys"
  by (auto simp: baobzi_funs_def)

lemma keys_to_eval_subset: "set (keys_to_eval avx512f argv) \<subseteq> set (fun_union avx512f)"
  by (simp add: keys_to_eval_set)

lemma probed_registries_union:
  "(\<Union>p \<in> set (probes avx512f (keys_to_eval avx512f argv)). set (fst (snd p))) =
     set (fun_union avx512f)"
  unfolding probes_registries
  using baobzi_funs_subset [of "keys_to_eval avx512f argv"] keys_to_eval_subset [of avx512f argv]
  by blast

lemmas registry_defs =
  fort_funs_def hank10x_funs_def gsl_funs_def gsl_complex_funs_def boost_funs_fx1_def
  boost_funs_dx1_def std_funs_fx1_def std_funs_dx1_def amdlibm_funs_fx1_def amdlibm_funs_dx1_def
  amdlibm_funs_dx4_def amdlibm_funs_fx8_def sleef_funs_fx1_def sleef_funs_dx1_def
  sleef_funs_fx8_def sleef_funs_dx4_def sleef_funs_fx16_def sleef_funs_dx8_def af_funs_fx8_def
  af_funs_dx4_def af_funs_fx16_def af_funs_dx8_def sctl_funs_fx8_def sctl_funs_dx4_def
  sctl_funs_fx16_def sctl_funs_dx8_def eigen_funs_def potential_baobzi_funs_def













text \<open>
  The calls are those of the table \<open>probes\<close>: the same labels, in the same order, each
  with the keys of its registry and with the vector the table names.
\<close>

lemma registry_of_dom: "dom (registry_of keys entry) = set keys"
  by (auto simp: registry_of_def split: if_splits)

lemma eigen_ops_dom: "dom eigen_ops = set eigen_funs"
  unfolding eigen_ops_def eigen_funs_def dom_map_of_conv_image_fst by simp

lemma bench_calls_probes:
  "list_all2 (\<lambda>c p. case c of
        Call_real library_prefix funs vals_in \<Rightarrow>
          library_prefix = fst p \<and> dom funs = set (fst (snd p))
          \<and> (snd (snd p) = Float_sample \<and> vals_in = sample_fvals S
             \<or> snd (snd p) = Double_sample \<and> vals_in = sample_vals S)
      | Call_complex library_prefix funs vals_in \<Rightarrow>
          library_prefix = fst p \<and> dom funs = set (fst (snd p))
          \<and> snd (snd p) = Complex_sample \<and> vals_in = sample_cvals S
      | Call_ops library_prefix funs vals_in \<Rightarrow>
          library_prefix = fst p \<and> dom funs = set (fst (snd p))
          \<and> (snd (snd p) = Float_sample \<and> vals_in = sample_fvals S
             \<or> snd (snd p) = Double_sample \<and> vals_in = sample_vals S))
     (bench_calls avx512f L keys S) (probes avx512f keys)"
  unfolding bench_calls_def probes_def
  by (cases avx512f) (simp_all add: multi_registry_def registry_of_dom eigen_ops_dom)


text \<open>
  Claim C1. The requested set \<^verbatim>\<open>keys_to_eval\<close> is the union of the key sets of all
  registries the benchmark loop probes when no argument is given, and that union
  intersected with the arguments otherwise. So an argument that is a key of no registry
  is dropped: it is not requested, and nothing fails. (The union loops of \<^verbatim>\<open>main\<close> leave
  out \<^verbatim>\<open>af_funs_fx8\<close>, \<^verbatim>\<open>sctl_funs_fx8\<close>, \<^verbatim>\<open>af_funs_fx16\<close> and \<^verbatim>\<open>sctl_funs_fx16\<close>; their keys
  are keys of registries the loops cover.) The requested keys are in ascending order.
\<close>

theorem requested_keys_union_or_intersection:
  "set (keys_to_eval avx512f argv) =
     (if argv = []
      then (\<Union>p \<in> set (probes avx512f (keys_to_eval avx512f argv)). set (fst (snd p)))
      else (\<Union>p \<in> set (probes avx512f (keys_to_eval avx512f argv)). set (fst (snd p))) \<inter> set argv)
   \<and> sorted_wrt (<) (keys_to_eval avx512f argv)"
proof -
  note u = probed_registries_union [of avx512f argv]
  have s: "sorted_wrt (<) (keys_to_eval avx512f argv)"
    by (simp add: keys_to_eval_def Let_def fun_union_sorted foldl_set_insert_sorted)
  show ?thesis unfolding u using keys_to_eval_set [of avx512f argv] s by simp
qed

theorem requested_keys_union_or_intersection_witness:
  "set (keys_to_eval False [''sin'', ''not_a_function'', ''hank103'']) = {''sin'', ''hank103''}"
proof -
  have a: "''sin'' \<in> set (fun_union False)" "''hank103'' \<in> set (fun_union False)"
    by (simp_all add: fun_union_set gsl_funs_def hank10x_funs_def)
  have b: "''not_a_function'' \<notin> set (fun_union False)"
    by (simp add: fun_union_set registry_defs)
  from requested_keys_union_or_intersection [of False "[''sin'', ''not_a_function'', ''hank103'']"]
  have "set (keys_to_eval False [''sin'', ''not_a_function'', ''hank103'']) =
          set (fun_union False) \<inter> set [''sin'', ''not_a_function'', ''hank103'']"
    unfolding probed_registries_union by simp
  with a b show ?thesis by auto
qed




end
